theory Spec2Isabelle
  imports Complex_Main "HOL-Library.Sublist"
begin

section \<open>Python and numpy values\<close>

text \<open>
  The program is \<^verbatim>\<open>scripts/cartpole_q_learning.py\<close>: tabular Q-learning on a
  discretized CartPole. A Python \<^verbatim>\<open>float\<close> or numpy \<^verbatim>\<open>float64\<close> is the
  \<^typ>\<open>real\<close> it denotes; infinities and NaN are outside this development. The
  arithmetic of \<^verbatim>\<open>Agent.update\<close> and the sum of an episode's deltas are rounded as
  the hardware rounds them (\<open>float64\<close> below); the other computations (bin edges, epsilon
  schedule, samples of the random generator, the accuracy quotient) are carried out on the
  exact values.
  Python's \<^verbatim>\<open>int\<close> is \<^typ>\<open>int\<close>; lengths and shapes are \<^typ>\<open>nat\<close>.
  An exception is a value \<open>Inl e\<close> of the result type \<open>error + 'a\<close>: the Python
  exceptions the program can meet, and \<open>GymError\<close> for whatever \<^verbatim>\<open>gym\<close> raises.
\<close>

datatype error =
    IndexError
  | ValueError
  | TypeError
  | AttributeError
  | ZeroDivisionError
  | GymError

text \<open>Sequencing of calls that may raise: the first exception aborts what follows.\<close>

definition bind_r :: "error + 'a \<Rightarrow> ('a \<Rightarrow> error + 'b) \<Rightarrow> error + 'b" where
  "bind_r m f = (case m of Inl e \<Rightarrow> Inl e | Inr x \<Rightarrow> f x)"

text \<open>
  An integer index into a sequence of length \<open>n\<close>: a negative index counts from the
  end, anything outside \<open>[-n, n)\<close> raises \<^verbatim>\<open>IndexError\<close>.
\<close>

definition py_index :: "nat \<Rightarrow> int \<Rightarrow> error + nat" where
  "py_index n i =
     (if 0 \<le> i \<and> i < int n then Inr (nat i)
      else if i < 0 \<and> - int n \<le> i then Inr (nat (i + int n))
      else Inl IndexError)"

definition py_getitem :: "'a list \<Rightarrow> int \<Rightarrow> error + 'a" where
  "py_getitem xs i = bind_r (py_index (length xs) i) (\<lambda>k. Inr (xs ! k))"

text \<open>\<^verbatim>\<open>range(n)\<close> for a Python int: empty when \<open>n \<le> 0\<close>.\<close>

definition py_range :: "int \<Rightarrow> int list" where
  "py_range n = map int [0..<nat n]"

subsection \<open>float64 arithmetic\<close>

text \<open>
  An operation on \<^verbatim>\<open>float64\<close> values returns the exact result rounded to the nearest
  \<^verbatim>\<open>float64\<close>, a tie going to the even significand. A \<^verbatim>\<open>float64\<close> has 53
  significant bits: for \<open>2^e \<le> |x| < 2^(e+1)\<close> the representable numbers around \<open>x\<close> are
  the multiples of \<open>2^(e-52)\<close>, and below \<open>2^(-1022)\<close> the spacing stays \<open>2^(-1074)\<close>.
  The exponent \<open>e\<close> is found by halving or doubling \<open>|x|\<close> until it lies in \<open>[1, 2)\<close>;
  \<open>1100\<close> steps reach every exponent of a \<^verbatim>\<open>float64\<close>. A result too large for a
  \<^verbatim>\<open>float64\<close>, which the hardware turns into an infinity, is outside this development.
\<close>

definition round_half_even :: "real \<Rightarrow> int" where
  "round_half_even x =
     (let n = \<lfloor>x\<rfloor>; frac = x - of_int n in
      if frac < 1 / 2 then n
      else if 1 / 2 < frac then n + 1
      else if even n then n else n + 1)"

primrec exponent_search :: "nat \<Rightarrow> real \<Rightarrow> int" where
  "exponent_search 0 x = 0"
| "exponent_search (Suc fuel) x =
     (if 2 \<le> x then exponent_search fuel (x / 2) + 1
      else if x < 1 then exponent_search fuel (2 * x) - 1
      else 0)"

definition binary_exponent :: "real \<Rightarrow> int" where
  "binary_exponent x = exponent_search 1100 \<bar>x\<bar>"

definition float64 :: "real \<Rightarrow> real" where
  "float64 x =
     (if x = 0 then 0
      else
        let ulp = 2 powi (max (binary_exponent x) (- 1022) - 52)
        in of_int (round_half_even (x / ulp)) * ulp)"

subsection \<open>numpy arrays\<close>

text \<open>
  A numpy array is its shape and its elements in row-major (C) order. Every array numpy
  builds has as many elements as its shape says (\<open>nd_wf\<close>).
\<close>

record ndarray =
  nd_shape :: "nat list"
  nd_data :: "real list"

definition nd_wf :: "ndarray \<Rightarrow> bool" where
  "nd_wf a = (length (nd_data a) = prod_list (nd_shape a))"

text \<open>
  Basic indexing \<^verbatim>\<open>a[i0, ..., ik]\<close> with a tuple of integers: the offset of the selected
  block in the data, and the shape that is left. More indices than dimensions raise
  \<^verbatim>\<open>IndexError\<close> (so does indexing a numpy scalar).
\<close>

fun nd_offset :: "nat list \<Rightarrow> int list \<Rightarrow> error + (nat \<times> nat list)" where
  "nd_offset sh [] = Inr (0, sh)"
| "nd_offset [] (i # idx) = Inl IndexError"
| "nd_offset (n # sh) (i # idx) =
     bind_r (py_index n i) (\<lambda>k.
     bind_r (nd_offset sh idx) (\<lambda>(off, rest).
       Inr (k * prod_list sh + off, rest)))"

text \<open>The elements of the view that starts at offset \<open>off\<close> and holds \<open>n\<close> elements.\<close>

definition block :: "real list \<Rightarrow> nat \<Rightarrow> nat \<Rightarrow> real list" where
  "block xs off n = take n (drop off xs)"

text \<open>
  An in-place operation on a view, as \<^verbatim>\<open>a[i][j] += b\<close> does it: each of the \<open>n\<close>
  elements from offset \<open>off\<close> on is overwritten with \<open>f\<close> of its value; the array keeps
  its other elements and its size.
\<close>

definition view_map :: "(real \<Rightarrow> real) \<Rightarrow> nat \<Rightarrow> nat \<Rightarrow> real list \<Rightarrow> real list" where
  "view_map f off n xs = fold (\<lambda>j ys. ys[j := f (xs ! j)]) [off..<off + n] xs"

text \<open>
  What an expression over the table evaluates to: a \<^verbatim>\<open>np.float64\<close> scalar when the
  index names a single element, an array otherwise.
\<close>

datatype np_value =
    Scalar real
  | Array ndarray

text \<open>
  \<^verbatim>\<open>a + b\<close> with numpy's broadcasting. The shapes are aligned at their last
  dimension; two dimensions fit when they are equal or one of them is \<open>1\<close>, otherwise
  \<^verbatim>\<open>ValueError\<close> is raised. \<open>broadcast_shape\<close> works on the reversed shapes. An
  element of the result is the \<^verbatim>\<open>float64\<close> sum of the elements at the same index,
  where a dimension of size \<open>1\<close> is read at index \<open>0\<close>.
\<close>

fun broadcast_shape :: "nat list \<Rightarrow> nat list \<Rightarrow> error + nat list" where
  "broadcast_shape [] ys = Inr ys"
| "broadcast_shape (x # xs) [] = Inr (x # xs)"
| "broadcast_shape (x # xs) (y # ys) =
     (if x = y \<or> y = 1 then bind_r (broadcast_shape xs ys) (\<lambda>rest. Inr (x # rest))
      else if x = 1 then bind_r (broadcast_shape xs ys) (\<lambda>rest. Inr (y # rest))
      else Inl ValueError)"

fun nd_indices :: "nat list \<Rightarrow> nat list list" where
  "nd_indices [] = [[]]"
| "nd_indices (n # sh) = concat (map (\<lambda>i. map ((#) i) (nd_indices sh)) [0..<n])"

fun broadcast_offset :: "nat list \<Rightarrow> nat list \<Rightarrow> nat" where
  "broadcast_offset (n # sh) (i # idx) =
     (if n = 1 then 0 else i) * prod_list sh + broadcast_offset sh idx"
| "broadcast_offset sh idx = 0"

definition broadcast_get :: "ndarray \<Rightarrow> nat list \<Rightarrow> real" where
  "broadcast_get a idx =
     nd_data a ! broadcast_offset (nd_shape a) (drop (length idx - length (nd_shape a)) idx)"

definition nd_add :: "ndarray \<Rightarrow> ndarray \<Rightarrow> error + ndarray" where
  "nd_add a b =
     bind_r (broadcast_shape (rev (nd_shape a)) (rev (nd_shape b))) (\<lambda>reversed.
       Inr \<lparr>nd_shape = rev reversed,
            nd_data = map (\<lambda>idx. float64 (broadcast_get a idx + broadcast_get b idx))
                        (nd_indices (rev reversed))\<rparr>)"

definition np_add :: "np_value \<Rightarrow> np_value \<Rightarrow> error + np_value" where
  "np_add x y =
     (case x of
        Scalar u \<Rightarrow>
          (case y of
             Scalar v \<Rightarrow> Inr (Scalar (float64 (u + v)))
           | Array b \<Rightarrow> Inr (Array (b\<lparr>nd_data := map (\<lambda>v. float64 (u + v)) (nd_data b)\<rparr>)))
      | Array a \<Rightarrow>
          (case y of
             Scalar v \<Rightarrow> Inr (Array (a\<lparr>nd_data := map (\<lambda>u. float64 (u + v)) (nd_data a)\<rparr>))
           | Array b \<Rightarrow> bind_r (nd_add a b) (\<lambda>c. Inr (Array c))))"

text \<open>
  \<^verbatim>\<open>sum(xs).item()\<close> on a list of such values. \<^verbatim>\<open>sum\<close> adds from the left,
  starting from the Python int \<open>0\<close>, to which the first element is added exactly: on the
  empty list it returns that int, which has no \<^verbatim>\<open>item\<close> (\<^verbatim>\<open>AttributeError\<close>).
  \<^verbatim>\<open>item\<close> returns the scalar, or the only element of an array, and raises
  \<^verbatim>\<open>ValueError\<close> on an array of any other size.
\<close>

fun np_add_all :: "np_value \<Rightarrow> np_value list \<Rightarrow> error + np_value" where
  "np_add_all s [] = Inr s"
| "np_add_all s (x # xs) = bind_r (np_add s x) (\<lambda>s'. np_add_all s' xs)"

definition np_item :: "np_value \<Rightarrow> error + real" where
  "np_item x =
     (case x of
        Scalar v \<Rightarrow> Inr v
      | Array a \<Rightarrow> (case nd_data a of [v] \<Rightarrow> Inr v | _ \<Rightarrow> Inl ValueError))"

definition sum_item :: "np_value list \<Rightarrow> error + real" where
  "sum_item xs =
     (case xs of
        [] \<Rightarrow> Inl AttributeError
      | x # rest \<Rightarrow> bind_r (np_add_all x rest) np_item)"

text \<open>
  \<^verbatim>\<open>np.max\<close> and \<^verbatim>\<open>np.argmax\<close> over the flattened elements; both raise \<^verbatim>\<open>ValueError\<close>
  on an empty array. \<^verbatim>\<open>np.argmax\<close> returns the first position of the maximum: the scan
  replaces its candidate only by a strictly larger element.
\<close>

definition np_max :: "real list \<Rightarrow> error + real" where
  "np_max xs = (case xs of [] \<Rightarrow> Inl ValueError | x # rest \<Rightarrow> Inr (fold max rest x))"

fun argmax_scan :: "real list \<Rightarrow> nat \<Rightarrow> nat \<Rightarrow> real \<Rightarrow> nat" where
  "argmax_scan [] i best best_value = best"
| "argmax_scan (x # xs) i best best_value =
     (if best_value < x then argmax_scan xs (Suc i) i x
      else argmax_scan xs (Suc i) best best_value)"

definition np_argmax :: "real list \<Rightarrow> error + nat" where
  "np_argmax xs = (case xs of [] \<Rightarrow> Inl ValueError | x # rest \<Rightarrow> Inr (argmax_scan rest 1 0 x))"

text \<open>
  \<^verbatim>\<open>np.linspace(start, stop, num)\<close> for \<open>num \<ge> 0\<close>, as numpy computes it:
  \<open>step = (stop - start) / (num - 1)\<close> when \<open>num > 1\<close>, and the points
  \<open>start + i * step\<close>.
\<close>

definition np_linspace :: "real \<Rightarrow> real \<Rightarrow> nat \<Rightarrow> real list" where
  "np_linspace start stop num =
     (let d = num - 1; delta = stop - start in
      if 0 < d then map (\<lambda>i. start + real i * (delta / real d)) [0..<num]
      else map (\<lambda>i. start + real i * delta) [0..<num])"

text \<open>
  \<^verbatim>\<open>np.digitize(x, bins)\<close> with the default \<^verbatim>\<open>right=False\<close>. For increasing bins
  the result is \<^verbatim>\<open>searchsorted(bins, x, side='right')\<close>, the number of edges \<open>\<le> x\<close>;
  for decreasing bins it is \<^verbatim>\<open>len(bins) - searchsorted(bins[::-1], x, side='right')\<close>;
  bins that are neither raise \<^verbatim>\<open>ValueError\<close>.
\<close>

definition np_digitize :: "real \<Rightarrow> real list \<Rightarrow> error + int" where
  "np_digitize x bins =
     (if sorted bins then Inr (int (length (filter (\<lambda>b. b \<le> x) bins)))
      else if sorted (rev bins)
        then Inr (int (length bins) - int (length (filter (\<lambda>b. b \<le> x) (rev bins))))
      else Inl ValueError)"

text \<open>
  The global numpy random generator is the stream of the unit samples it will return
  (each in \<open>[0, 1)\<close>); drawing consumes the head. \<^verbatim>\<open>np.random.uniform(low, high)\<close> is
  \<open>low + (high - low) * sample\<close>.
\<close>

type_synonym rng = "nat \<Rightarrow> real"

definition np_random_uniform :: "real \<Rightarrow> real \<Rightarrow> rng \<Rightarrow> real \<times> rng" where
  "np_random_uniform low high r = (low + (high - low) * r 0, \<lambda>k. r (Suc k))"

definition np_random_uniform_size :: "real \<Rightarrow> real \<Rightarrow> nat list \<Rightarrow> rng \<Rightarrow> ndarray \<times> rng" where
  "np_random_uniform_size low high dims r =
     (\<lparr>nd_shape = dims,
       nd_data = map (\<lambda>k. low + (high - low) * r k) [0..<prod_list dims]\<rparr>,
      \<lambda>k. r (prod_list dims + k))"

section \<open>The simulation collaborator\<close>

text \<open>
  An observation as the program holds it: the raw vector of a \<^verbatim>\<open>Box\<close> space, the
  integer of a \<^verbatim>\<open>Discrete\<close> space, or the tuple of bin indices that
  \<^verbatim>\<open>set_observation\<close> builds.
\<close>

datatype observation =
    Box "real list"
  | Discrete int
  | Tuple "int list"

text \<open>
  \<^verbatim>\<open>gym\<close> is outside the repository. What the program uses of it is a parameter:
  \<open>'g\<close> is the state of a simulator (its random generator included).
\<close>

record 'g gym_api =
  gym_make :: "string \<Rightarrow> error + 'g"
  gym_reset :: "'g \<Rightarrow> observation \<times> 'g"
  gym_step :: "'g \<Rightarrow> int option \<Rightarrow> error + ((observation \<times> real \<times> bool) \<times> 'g)"
  gym_sample :: "'g \<Rightarrow> int \<times> 'g"
  gym_action_n :: "'g \<Rightarrow> nat"
  gym_observation_high :: "'g \<Rightarrow> error + real list"
  gym_horizon :: "'g \<Rightarrow> error + nat"

text \<open>
  An observation used as an index of the Q-table: an array of floats is refused by numpy
  with \<^verbatim>\<open>IndexError\<close>.
\<close>

definition as_index :: "observation \<Rightarrow> error + int list" where
  "as_index ob =
     (case ob of Box v \<Rightarrow> Inl IndexError | Discrete i \<Rightarrow> Inr [i] | Tuple t \<Rightarrow> Inr t)"

section \<open>Agent\<close>

text \<open>
  The fields of \<^verbatim>\<open>Agent\<close>. \<^verbatim>\<open>action_space\<close> and \<^verbatim>\<open>observation_space\<close> are
  references into the simulator, whose state is passed where a method uses it.
\<close>

record agent =
  action_space_length :: nat
  observation_space_length :: "nat list"
  n_episodes :: int
  epsilon :: "real list"
  q_table :: ndarray
  learning_rate :: real
  gamma :: real

text \<open>
  \<^verbatim>\<open>Agent.__init__\<close>: the epsilon schedule \<^verbatim>\<open>np.exp(-5 * np.linspace(0, 1, n_episodes))\<close>
  (\<^verbatim>\<open>np.linspace\<close> raises \<^verbatim>\<open>ValueError\<close> on a negative count) and the table
  \<^verbatim>\<open>np.random.uniform(low=-2, high=0, size=observation_space_length + [action_space_length])\<close>.
\<close>

definition Agent_init ::
  "nat \<Rightarrow> nat list \<Rightarrow> int \<Rightarrow> real \<Rightarrow> real \<Rightarrow> rng \<Rightarrow> error + (agent \<times> rng)" where
  "Agent_init action_space_length' observation_space_length' n_episodes' learning_rate' gamma' r =
     (if n_episodes' < 0 then Inl ValueError
      else
        let eps = map (\<lambda>x. exp (- 5 * x)) (np_linspace 0 1 (nat n_episodes'));
            (table, r') = np_random_uniform_size (- 2) 0
                            (observation_space_length' @ [action_space_length']) r
        in Inr (\<lparr>action_space_length = action_space_length',
                 observation_space_length = observation_space_length',
                 n_episodes = n_episodes',
                 epsilon = eps,
                 q_table = table,
                 learning_rate = learning_rate',
                 gamma = gamma'\<rparr>, r'))"

text \<open>
  \<^verbatim>\<open>Agent.act\<close>. The random number is drawn before \<^verbatim>\<open>self.epsilon[episode_number]\<close> is
  read. Exploration asks the simulator's action space for a sample; exploitation is
  \<^verbatim>\<open>np.argmax(self.q_table[observation])\<close>. The method returns \<open>self\<close> with its result.
\<close>

definition act ::
  "'g gym_api \<Rightarrow> agent \<Rightarrow> observation \<Rightarrow> int \<Rightarrow> rng \<Rightarrow> 'g \<Rightarrow> error + (int \<times> agent \<times> rng \<times> 'g)" where
  "act api self ob episode_number r g =
     (let (u, r') = np_random_uniform 1.0 0.0 r in
      bind_r (py_getitem (epsilon self) episode_number) (\<lambda>eps.
        if u < eps then
          (let (a, g') = gym_sample api g in Inr (a, self, r', g'))
        else
          bind_r (as_index ob) (\<lambda>idx.
          bind_r (nd_offset (nd_shape (q_table self)) idx) (\<lambda>(off, sh).
          bind_r (np_argmax (block (nd_data (q_table self)) off (prod_list sh))) (\<lambda>a.
            Inr (int a, self, r', g))))))"

text \<open>
  \<^verbatim>\<open>Agent.update\<close>, in float64 arithmetic. When the state index has one integer per
  state dimension, \<^verbatim>\<open>self.q_table[observation][action]\<close> is one element: \<open>q_value\<close>
  is a copy of it, and the value returned is the element after the update minus that copy.
  When the index is shorter, numpy selects a view of several elements: \<open>q_value\<close> is an
  alias of those elements, \<^verbatim>\<open>+=\<close> updates each of them from its own value, and the
  array returned is the view minus itself.
\<close>

definition update ::
  "agent \<Rightarrow> observation \<Rightarrow> int \<Rightarrow> observation \<Rightarrow> real \<Rightarrow> error + (np_value \<times> agent)" where
  "update self ob action next_ob reward =
     bind_r (as_index ob) (\<lambda>idx.
     bind_r (nd_offset (nd_shape (q_table self)) idx) (\<lambda>(off1, sh1).
     bind_r (nd_offset sh1 [action]) (\<lambda>(off2, sh2).
     bind_r (as_index next_ob) (\<lambda>next_idx.
     bind_r (nd_offset (nd_shape (q_table self)) next_idx) (\<lambda>(off3, sh3).
     bind_r (np_max (block (nd_data (q_table self)) off3 (prod_list sh3)))
       (\<lambda>next_q_value_estimate.
         let temporal_difference_target =
               float64 (reward + float64 (gamma self * next_q_value_estimate));
             cell = off1 + off2;
             data' = view_map
                       (\<lambda>q. float64 (q + float64 (learning_rate self
                                                   * float64 (temporal_difference_target - q))))
                       cell (prod_list sh2) (nd_data (q_table self));
             self' = self\<lparr>q_table := (q_table self)\<lparr>nd_data := data'\<rparr>\<rparr>
         in
         if sh2 = [] then
           let q_value = nd_data (q_table self) ! cell
           in Inr (Scalar (float64 (data' ! cell - q_value)), self')
         else
           Inr (Array \<lparr>nd_shape = sh2,
                       nd_data = map (\<lambda>q'. float64 (q' - q'))
                                   (block data' cell (prod_list sh2))\<rparr>, self')))))))"

section \<open>MyEnvironment\<close>

text \<open>
  The fields of \<^verbatim>\<open>MyEnvironment\<close>. \<^verbatim>\<open>n_bins\<close> and \<^verbatim>\<open>bins\<close> exist only when the
  constructor saw a name containing \<^verbatim>\<open>CartPole\<close>: \<open>None\<close> is the missing attribute.
\<close>

record 'g MyEnvironment =
  environment_name :: string
  environment :: 'g
  action :: "int option"
  observation :: "observation option"
  n_bins :: "nat option"
  bins :: "real list list option"

text \<open>
  \<^verbatim>\<open>MyEnvironment.__init__\<close>, called with the name only (\<^verbatim>\<open>action\<close> and
  \<^verbatim>\<open>observation\<close> default to \<^verbatim>\<open>None\<close>). \<^verbatim>\<open>gym.make\<close> may raise. There is no
  \<^verbatim>\<open>else\<close> to the test on the name.
\<close>

definition MyEnvironment_init :: "'g gym_api \<Rightarrow> string \<Rightarrow> error + 'g MyEnvironment" where
  "MyEnvironment_init api name =
     bind_r (gym_make api name) (\<lambda>g.
       if sublist ''CartPole'' name then
         Inr \<lparr>environment_name = name, environment = g, action = None, observation = None,
              n_bins = Some 20,
              bins = Some [np_linspace (- 4.8) 4.8 20,
                           np_linspace (- 4) 4 20,
                           np_linspace (- 0.418) 0.418 20,
                           np_linspace (- 4) 4 20]\<rparr>
       else
         Inr \<lparr>environment_name = name, environment = g, action = None, observation = None,
              n_bins = None, bins = None\<rparr>)"

definition get_action_space_length :: "'g gym_api \<Rightarrow> 'g MyEnvironment \<Rightarrow> nat" where
  "get_action_space_length api self =
     (if sublist ''CartPole'' (environment_name self) then 2
      else gym_action_n api (environment self))"

definition get_observation_space_length :: "'g gym_api \<Rightarrow> 'g MyEnvironment \<Rightarrow> error + nat list" where
  "get_observation_space_length api self =
     (if sublist ''CartPole'' (environment_name self) then
        bind_r (case n_bins self of None \<Rightarrow> Inl AttributeError | Some n \<Rightarrow> Inr n) (\<lambda>n.
        bind_r (gym_observation_high api (environment self)) (\<lambda>high.
          Inr (replicate (length high) (n + 1))))
      else bind_r (gym_horizon api (environment self)) (\<lambda>h. Inr [h + 1]))"

text \<open>\<^verbatim>\<open>self.observation[i]\<close> on what \<^verbatim>\<open>set_observation\<close> was given.\<close>

definition observation_getitem :: "observation \<Rightarrow> int \<Rightarrow> error + real" where
  "observation_getitem ob i =
     (case ob of
        Box v \<Rightarrow> py_getitem v i
      | Discrete k \<Rightarrow> Inl TypeError
      | Tuple t \<Rightarrow> bind_r (py_getitem t i) (\<lambda>k. Inr (real_of_int k)))"

text \<open>
  The loop of \<^verbatim>\<open>set_observation\<close>: for each \<open>i\<close>, append
  \<^verbatim>\<open>np.digitize(self.observation[i], self.bins[i]) - 1\<close>.
\<close>

fun digitize_loop ::
  "real list list option \<Rightarrow> observation \<Rightarrow> int list \<Rightarrow> int list \<Rightarrow> error + int list" where
  "digitize_loop bs ob [] observation_index = Inr observation_index"
| "digitize_loop bs ob (i # rest) observation_index =
     bind_r (observation_getitem ob i) (\<lambda>x.
     bind_r (case bs of None \<Rightarrow> Inl AttributeError | Some b \<Rightarrow> py_getitem b i) (\<lambda>edges.
     bind_r (np_digitize x edges) (\<lambda>k.
       digitize_loop bs ob rest (observation_index @ [k - 1]))))"

definition set_observation ::
  "'g gym_api \<Rightarrow> 'g MyEnvironment \<Rightarrow> observation \<Rightarrow> error + 'g MyEnvironment" where
  "set_observation api self ob =
     (let self1 = self\<lparr>observation := Some ob\<rparr> in
      if sublist ''CartPole'' (environment_name self1) then
        bind_r (gym_observation_high api (environment self1)) (\<lambda>high.
        bind_r (digitize_loop (bins self1) ob (py_range (int (length high))) []) (\<lambda>idx.
          Inr (self1\<lparr>observation := Some (Tuple idx)\<rparr>)))
      else Inr self1)"

definition reset :: "'g gym_api \<Rightarrow> 'g MyEnvironment \<Rightarrow> observation \<times> 'g MyEnvironment" where
  "reset api self =
     (let (ob, g') = gym_reset api (environment self) in (ob, self\<lparr>environment := g'\<rparr>))"

definition step ::
  "'g gym_api \<Rightarrow> 'g MyEnvironment \<Rightarrow> error + ((observation \<times> real \<times> bool) \<times> 'g MyEnvironment)" where
  "step api self =
     bind_r (gym_step api (environment self) (action self)) (\<lambda>(res, g').
       Inr (res, self\<lparr>environment := g'\<rparr>))"

section \<open>The training loop\<close>

text \<open>
  The objects \<^verbatim>\<open>main\<close> works on, and the locals of one episode (\<open>is_done\<close> is
  the local \<^verbatim>\<open>done\<close>). Rendering
  (\<^verbatim>\<open>display_environment\<close>, IPython) and \<^verbatim>\<open>plot_statistics\<close> are left out: \<open>main\<close>
  ends where the loop over the episodes ends.
\<close>

record 'g heap =
  the_agent :: agent
  the_environment :: "'g MyEnvironment"
  the_rng :: rng

record 'g episode_state =
  ep_heap :: "'g heap"
  ep_observation :: observation
  is_done :: bool
  optimal_actions :: int
  episode_count :: int
  delta_update :: "np_value list"

record 'g loop_state =
  heap :: "'g heap"
  running_delta :: "real list"
  running_accuracy :: "real list"

definition running_length :: int where
  "running_length = 5"

text \<open>\<^verbatim>\<open>environment.observation\<close>, read after \<^verbatim>\<open>set_observation\<close> has stored it.\<close>

definition read_observation :: "'g MyEnvironment \<Rightarrow> error + observation" where
  "read_observation e = (case observation e of None \<Rightarrow> Inl TypeError | Some ob \<Rightarrow> Inr ob)"

text \<open>One pass through the body of \<^verbatim>\<open>while not done\<close>.\<close>

definition episode_step :: "'g gym_api \<Rightarrow> int \<Rightarrow> 'g episode_state \<Rightarrow> error + 'g episode_state" where
  "episode_step api episode_index s =
     (let h = ep_heap s; e = the_environment h in
      bind_r (act api (the_agent h) (ep_observation s) episode_index (the_rng h) (environment e))
        (\<lambda>(a, ag1, r1, g1).
      let e1 = e\<lparr>environment := g1, action := Some a\<rparr> in
      bind_r (step api e1) (\<lambda>((next_raw, reward, done'), e2).
      bind_r (set_observation api e2 next_raw) (\<lambda>e3.
      bind_r (read_observation e3) (\<lambda>next_observation.
      bind_r (update ag1 (ep_observation s) a next_observation reward) (\<lambda>(delta, ag2).
        Inr (s\<lparr>ep_heap := \<lparr>the_agent = ag2, the_environment = e3, the_rng = r1\<rparr>,
               ep_observation := next_observation,
               is_done := done',
               optimal_actions := optimal_actions s + (if reward > 0.0 then 1 else 0),
               episode_count := episode_count s + 1,
               delta_update := delta_update s @ [delta]\<rparr>)))))))"

text \<open>
  \<^verbatim>\<open>while not done\<close>: the simulator decides when an episode ends, so the loop need not
  return; \<open>None\<close> is the run that never leaves it.
\<close>

partial_function (option) episode_loop ::
  "'g gym_api \<Rightarrow> int \<Rightarrow> 'g episode_state \<Rightarrow> (error + 'g episode_state) option" where
  "episode_loop api episode_index s =
     (if is_done s then Some (Inr s)
      else case episode_step api episode_index s of
             Inl e \<Rightarrow> Some (Inl e)
           | Inr s' \<Rightarrow> episode_loop api episode_index s')"

text \<open>
  The statistics of a finished episode: \<^verbatim>\<open>sum(delta_update).item()\<close> and
  \<^verbatim>\<open>optimal_actions/episode_count\<close> are appended, and \<^verbatim>\<open>print\<close> reads
  \<^verbatim>\<open>agent.epsilon[episode_index]\<close> and \<^verbatim>\<open>running_delta[episode_index]\<close>.
\<close>

definition record_statistics ::
  "int \<Rightarrow> 'g loop_state \<Rightarrow> 'g episode_state \<Rightarrow> error + 'g loop_state" where
  "record_statistics episode_index st s =
     bind_r (sum_item (delta_update s)) (\<lambda>cumulative_delta.
       let deltas = running_delta st @ [cumulative_delta] in
       if episode_count s = 0 then Inl ZeroDivisionError
       else
         let accs = running_accuracy st
                      @ [real_of_int (optimal_actions s) / real_of_int (episode_count s)] in
         bind_r (py_getitem (epsilon (the_agent (ep_heap s))) episode_index) (\<lambda>eps.
         bind_r (py_getitem deltas episode_index) (\<lambda>d.
           Inr (st\<lparr>heap := ep_heap s, running_delta := deltas, running_accuracy := accs\<rparr>))))"

text \<open>
  The start of the body of \<^verbatim>\<open>for episode_index in range(n_episodes)\<close>: the counters
  are set (\<^verbatim>\<open>episode_count = 1\<close>), the environment is reset and the first observation
  discretized.
\<close>

definition episode_init :: "'g gym_api \<Rightarrow> 'g heap \<Rightarrow> error + 'g episode_state" where
  "episode_init api h =
     (let (raw, e1) = reset api (the_environment h) in
      bind_r (set_observation api e1 raw) (\<lambda>e2.
      bind_r (read_observation e2) (\<lambda>ob.
        Inr \<lparr>ep_heap = h\<lparr>the_environment := e2\<rparr>,
             ep_observation = ob,
             is_done = False,
             optimal_actions = 0,
             episode_count = 1,
             delta_update = []\<rparr>)))"

text \<open>The body of that loop up to the \<^verbatim>\<open>print\<close>.\<close>

definition run_episode ::
  "'g gym_api \<Rightarrow> int \<Rightarrow> 'g loop_state \<Rightarrow> (error + 'g loop_state) option" where
  "run_episode api episode_index st =
     (case episode_init api (heap st) of
        Inl err \<Rightarrow> Some (Inl err)
      | Inr s0 \<Rightarrow>
          (case episode_loop api episode_index s0 of
             None \<Rightarrow> None
           | Some (Inl err) \<Rightarrow> Some (Inl err)
           | Some (Inr s) \<Rightarrow> Some (record_statistics episode_index st s)))"

text \<open>The condition of the \<^verbatim>\<open>break\<close> at the end of an episode.\<close>

definition early_stop :: "int \<Rightarrow> int \<Rightarrow> real list \<Rightarrow> real list \<Rightarrow> bool" where
  "early_stop n_eps episode_index accs deltas =
     (episode_index \<ge> n_eps + running_length \<or>
      (list_all (\<lambda>accuracy. accuracy = 1.0) accs \<and>
       list_all (\<lambda>delta. delta < 0.0001) deltas \<and>
       episode_index \<ge> running_length))"

fun training_loop ::
  "'g gym_api \<Rightarrow> int \<Rightarrow> int list \<Rightarrow> 'g loop_state \<Rightarrow> (error + 'g loop_state) option" where
  "training_loop api n_eps [] st = Some (Inr st)"
| "training_loop api n_eps (episode_index # rest) st =
     (case run_episode api episode_index st of
        None \<Rightarrow> None
      | Some (Inl err) \<Rightarrow> Some (Inl err)
      | Some (Inr st') \<Rightarrow>
          if early_stop n_eps episode_index (running_accuracy st') (running_delta st')
          then Some (Inr st')
          else training_loop api n_eps rest st')"

text \<open>
  \<^verbatim>\<open>main\<close>, with the globals \<^verbatim>\<open>n_episodes\<close>, \<^verbatim>\<open>learning_rate\<close> and \<^verbatim>\<open>gamma\<close> as
  arguments; \<open>r\<close> is the generator after \<^verbatim>\<open>np.random.seed(111989)\<close>.
\<close>

definition main ::
  "'g gym_api \<Rightarrow> int \<Rightarrow> real \<Rightarrow> real \<Rightarrow> rng \<Rightarrow> (error + 'g loop_state) option" where
  "main api n_eps lr gm r =
     (case bind_r (MyEnvironment_init api ''CartPole-v1'') (\<lambda>e0.
           let (ob0, e1) = reset api e0 in
           bind_r (get_observation_space_length api e1) (\<lambda>observation_space_length'.
           bind_r (Agent_init (get_action_space_length api e1) observation_space_length'
                     n_eps lr gm r) (\<lambda>(ag, r').
             Inr \<lparr>heap = \<lparr>the_agent = ag, the_environment = e1, the_rng = r'\<rparr>,
                  running_delta = [], running_accuracy = []\<rparr>))) of
        Inl err \<Rightarrow> Some (Inl err)
      | Inr st \<Rightarrow> training_loop api n_eps (py_range n_eps) st)"

section \<open>Notions used to state the properties\<close>

text \<open>
  An index tuple is in range for a shape when it has one integer per dimension, each
  within \<open>[-n, n)\<close> of its dimension \<open>n\<close>. \<open>flat_index\<close> is the row-major position such
  an index selects (a negative index counted from the end), \<open>q_cell\<close> the entry
  \<^verbatim>\<open>Q[s][a]\<close> and \<open>q_row\<close> the entries of \<^verbatim>\<open>Q[s]\<close>.
\<close>

definition in_range :: "nat list \<Rightarrow> int list \<Rightarrow> bool" where
  "in_range sh idx = list_all2 (\<lambda>n i. - int n \<le> i \<and> i < int n) sh idx"

fun flat_index :: "nat list \<Rightarrow> int list \<Rightarrow> nat" where
  "flat_index (n # sh) (i # idx) =
     nat (if i < 0 then i + int n else i) * prod_list sh + flat_index sh idx"
| "flat_index sh idx = 0"

definition q_cell :: "ndarray \<Rightarrow> int list \<Rightarrow> real" where
  "q_cell t idx = nd_data t ! flat_index (nd_shape t) idx"

definition q_row :: "ndarray \<Rightarrow> int list \<Rightarrow> real list" where
  "q_row t s =
     block (nd_data t) (flat_index (nd_shape t) s) (prod_list (drop (length s) (nd_shape t)))"

text \<open>
  The index \<^verbatim>\<open>set_observation\<close> gives a raw value \<open>x\<close> for increasing edges: the number
  of edges \<open>\<le> x\<close>, minus one.
\<close>

definition bin_index :: "real \<Rightarrow> real list \<Rightarrow> int" where
  "bin_index x edges = int (length (filter (\<lambda>b. b \<le> x) edges)) - 1"

text \<open>
  The reward the simulator returns in the pass through the loop body that starts in state
  \<open>s\<close>, and the rewards of the passes that lead from a state to the state in which the
  loop ends.
\<close>

definition step_reward :: "'g gym_api \<Rightarrow> int \<Rightarrow> 'g episode_state \<Rightarrow> error + real" where
  "step_reward api episode_index s =
     (let h = ep_heap s; e = the_environment h in
      bind_r (act api (the_agent h) (ep_observation s) episode_index (the_rng h) (environment e))
        (\<lambda>(a, ag1, r1, g1).
      bind_r (step api (e\<lparr>environment := g1, action := Some a\<rparr>))
        (\<lambda>((next_raw, reward, done'), e2). Inr reward)))"

inductive episode_trace ::
  "'g gym_api \<Rightarrow> int \<Rightarrow> 'g episode_state \<Rightarrow> real list \<Rightarrow> 'g episode_state \<Rightarrow> bool" where
  finished: "is_done s \<Longrightarrow> episode_trace api i s [] s"
| pass: "\<not> is_done s \<Longrightarrow> episode_step api i s = Inr s1 \<Longrightarrow> step_reward api i s = Inr rw
         \<Longrightarrow> episode_trace api i s1 rws s' \<Longrightarrow> episode_trace api i s (rw # rws) s'"

text \<open>
  What the inner loop has counted when it ends in \<open>s'\<close> after passes with the rewards
  \<open>rws\<close>: \<^verbatim>\<open>optimal_actions\<close> has grown by the number of positive rewards,
  \<^verbatim>\<open>episode_count\<close> by the number of passes, and one delta was appended per pass.
\<close>

definition counted :: "'g episode_state \<Rightarrow> real list \<Rightarrow> 'g episode_state \<Rightarrow> bool" where
  "counted s rws s' =
     (is_done s'
      \<and> optimal_actions s' = optimal_actions s + int (length (filter (\<lambda>rw. 0 < rw) rws))
      \<and> episode_count s' = episode_count s + int (length rws)
      \<and> length (delta_update s') = length (delta_update s) + length rws)"

text \<open>The two sequences \<^verbatim>\<open>main\<close> hands to \<^verbatim>\<open>plot_statistics\<close>.\<close>

definition statistics :: "'g loop_state \<Rightarrow> real list \<times> real list" where
  "statistics st = (running_accuracy st, running_delta st)"

text \<open>
  \<open>updates_to ag ag'\<close>: the agent \<open>ag'\<close> is \<open>ag\<close> after some number of calls of
  \<open>update\<close> that returned.
\<close>

inductive updates_to :: "agent \<Rightarrow> agent \<Rightarrow> bool" where
  no_update: "updates_to ag ag"
| one_more: "updates_to ag ag1 \<Longrightarrow> update ag1 ob a ob' rw = Inr (d, ag2) \<Longrightarrow> updates_to ag ag2"

section \<open>Concrete inputs\<close>

text \<open>A table of two states and two actions, used to run the definitions.\<close>

definition ex_agent :: agent where
  "ex_agent = \<lparr>action_space_length = 2, observation_space_length = [2], n_episodes = 1,
     epsilon = [1], q_table = \<lparr>nd_shape = [2, 2], nd_data = [- 1, - 1.5, - 0.5, - 0.7]\<rparr>,
     learning_rate = 0.1, gamma = 0.95\<rparr>"

text \<open>
  The agent of the example of the update rule: \<open>Q[0][0] = -1\<close>, \<open>max (Q[1]) = -0.5\<close>,
  and the \<^verbatim>\<open>float64\<close> values that \<^verbatim>\<open>learning_rate = 0.1\<close> and
  \<^verbatim>\<open>gamma = 0.95\<close> denote.
\<close>

definition ex_float_agent :: agent where
  "ex_float_agent = \<lparr>action_space_length = 2, observation_space_length = [2], n_episodes = 1,
     epsilon = [1], q_table = \<lparr>nd_shape = [2, 2], nd_data = [- 1, - 1.5, - 0.5, - 0.75]\<rparr>,
     learning_rate = float64 0.1, gamma = float64 0.95\<rparr>"


text \<open>
  A generator whose every unit sample is \<open>0\<close>, and a simulator with four observation
  dimensions whose every episode ends after one step with reward \<open>1\<close>.
\<close>

definition zero_rng :: rng where
  "zero_rng = (\<lambda>k. 0)"

definition one_step_api :: "nat gym_api" where
  "one_step_api = \<lparr>gym_make = (\<lambda>name. Inr 0),
     gym_reset = (\<lambda>g. (Box [0, 0, 0, 0], g)),
     gym_step = (\<lambda>g a. Inr ((Box [0, 0, 0, 0], 1, True), Suc g)),
     gym_sample = (\<lambda>g. (0, g)),
     gym_action_n = (\<lambda>g. 2),
     gym_observation_high = (\<lambda>g. Inr [4.8, 4, 0.418, 4]),
     gym_horizon = (\<lambda>g. Inl AttributeError)\<rparr>"

text \<open>
  The adapter \<^verbatim>\<open>MyEnvironment('CartPole-v1')\<close> on that simulator, and the agent
  \<^verbatim>\<open>Agent(..., n_episodes=1, learning_rate=0.1, gamma=0.95)\<close> built for it from the
  zero generator: every entry of its table is \<open>-2\<close>.
\<close>

definition cartpole_env :: "nat MyEnvironment" where
  "cartpole_env = \<lparr>environment_name = ''CartPole-v1'', environment = 0, action = None,
     observation = None, n_bins = Some 20,
     bins = Some [np_linspace (- 4.8) 4.8 20, np_linspace (- 4) 4 20,
                  np_linspace (- 0.418) 0.418 20, np_linspace (- 4) 4 20]\<rparr>"

definition cartpole_agent :: agent where
  "cartpole_agent = \<lparr>action_space_length = 2, observation_space_length = [21, 21, 21, 21],
     n_episodes = 1, epsilon = [1],
     q_table = \<lparr>nd_shape = [21, 21, 21, 21, 2], nd_data = replicate 388962 (- 2)\<rparr>,
     learning_rate = 0.1, gamma = 0.95\<rparr>"

text \<open>
  The state \<^verbatim>\<open>main\<close> starts its loop in with that agent, the index tuple of the
  observation \<open>[0, 0, 0, 0]\<close>, and what stays true of the objects while the loop runs on
  the one-step simulator with the zero generator; with learning rate \<open>0\<close> the entries of
  the table stay the \<^verbatim>\<open>float64\<close> values they are.
\<close>

definition cartpole_start :: "nat loop_state" where
  "cartpole_start = \<lparr>heap = \<lparr>the_agent = cartpole_agent, the_environment = cartpole_env,
                                the_rng = zero_rng\<rparr>,
                       running_delta = [], running_accuracy = []\<rparr>"

definition origin_index :: "int list" where
  "origin_index = map (bin_index 0)
     [np_linspace (- 4.8) 4.8 20, np_linspace (- 4) 4 20,
      np_linspace (- 0.418) 0.418 20, np_linspace (- 4) 4 20]"

definition one_step_heap :: "nat heap \<Rightarrow> bool" where
  "one_step_heap h =
     (the_rng h = zero_rng
      \<and> nd_wf (q_table (the_agent h))
      \<and> nd_shape (q_table (the_agent h)) = [21, 21, 21, 21, 2]
      \<and> list_all (\<lambda>x. x \<le> 1) (epsilon (the_agent h))
      \<and> environment_name (the_environment h) = ''CartPole-v1''
      \<and> bins (the_environment h) = bins cartpole_env
      \<and> (learning_rate (the_agent h) = 0
           \<longrightarrow> list_all (\<lambda>x. float64 x = x) (nd_data (q_table (the_agent h)))))"

section \<open>Basic facts\<close>

lemma bind_r_simps [simp]:
  "bind_r (Inl e) f = Inl e"
  "bind_r (Inr x) f = f x"
  by (simp_all add: bind_r_def)

lemma py_index_in_range:
  "- int n \<le> i \<Longrightarrow> i < int n \<Longrightarrow> py_index n i = Inr (nat (if i < 0 then i + int n else i))"
  by (auto simp: py_index_def)

lemma py_index_bound: "py_index n i = Inr k \<Longrightarrow> k < n"
  by (auto simp: py_index_def split: if_splits)

lemma in_range_length: "in_range sh idx \<Longrightarrow> length idx = length sh"
  by (simp add: in_range_def list_all2_lengthD)

lemma nd_offset_in_range:
  "in_range sh1 idx \<Longrightarrow> nd_offset (sh1 @ sh2) idx = Inr (flat_index (sh1 @ sh2) idx, sh2)"
  unfolding in_range_def
proof (induction sh1 idx rule: list_all2_induct)
  case Nil
  then show ?case by (cases sh2) simp_all
next
  case (Cons n sh i idx)
  then show ?case by (simp add: py_index_in_range)
qed

lemma flat_index_bound:
  "in_range sh1 idx \<Longrightarrow> flat_index (sh1 @ sh2) idx + prod_list sh2 \<le> prod_list (sh1 @ sh2)"
  unfolding in_range_def
proof (induction sh1 idx rule: list_all2_induct)
  case Nil
  then show ?case by (cases sh2) simp_all
next
  case (Cons n sh i idx)
  let ?k = "nat (if i < 0 then i + int n else i)"
  from Cons.hyps have k: "?k < n" by auto
  then have "Suc ?k \<le> n" by simp
  then have "Suc ?k * prod_list (sh @ sh2) \<le> n * prod_list (sh @ sh2)"
    by (rule mult_le_mono1)
  with Cons.IH show ?case by simp
qed

lemma flat_index_append:
  "length idx1 = length sh1 \<Longrightarrow>
   flat_index (sh1 @ sh2) (idx1 @ idx2) = flat_index (sh1 @ sh2) idx1 + flat_index sh2 idx2"
proof (induction sh1 arbitrary: idx1)
  case Nil
  then show ?case by (cases sh2) simp_all
next
  case (Cons n sh)
  then obtain i idx where idx1: "idx1 = i # idx" by (cases idx1) auto
  with Cons show ?case by simp
qed

lemma np_max_Max: "xs \<noteq> [] \<Longrightarrow> np_max xs = Inr (Max (set xs))"
  by (cases xs) (simp_all add: np_max_def Max.set_eq_fold [symmetric] del: set_simps)

lemma nd_offset_last:
  "in_range [n] [a] \<Longrightarrow> nd_offset [n] [a] = Inr (flat_index [n] [a], [])"
  using nd_offset_in_range [of "[n]" "[a]" "[]"] by simp

lemma block_nonempty:
  "0 < n \<Longrightarrow> off + n \<le> length xs \<Longrightarrow> block xs off n \<noteq> []"
  by (auto simp: block_def)

lemma q_row_block:
  "in_range dims s \<Longrightarrow> nd_shape t = dims @ [n] \<Longrightarrow>
   q_row t s = block (nd_data t) (flat_index (dims @ [n]) s) n"
  using in_range_length [of dims s] by (simp add: q_row_def)

lemma length_block: "off + n \<le> length xs \<Longrightarrow> length (block xs off n) = n"
  by (simp add: block_def)

lemma bind_r_Inr:
  assumes "bind_r m f = Inr y"
  obtains x where "m = Inr x" "f x = Inr y"
  using assms by (cases m) simp_all

lemma view_map_single [simp]: "view_map f off (Suc 0) xs = xs[off := f (xs ! off)]"
  by (simp add: view_map_def)

lemma length_view_map [simp]: "length (view_map f off n xs) = length xs"
proof -
  have "length (fold (\<lambda>j ys. ys[j := g j]) js ys) = length ys" for g :: "nat \<Rightarrow> real" and js ys
    by (induction js arbitrary: ys) simp_all
  then show ?thesis by (simp add: view_map_def)
qed

lemma view_map_outside:
  assumes "j < off \<or> off + n \<le> j"
  shows "view_map f off n xs ! j = xs ! j"
proof -
  have "fold (\<lambda>j ys. ys[j := g j]) js ys ! j = ys ! j" if "j \<notin> set js"
    for g :: "nat \<Rightarrow> real" and js ys
    using that by (induction js arbitrary: ys) auto
  with assms show ?thesis by (auto simp: view_map_def)
qed

section \<open>float64 rounding\<close>

text \<open>
  \<open>float64\<close> on a number whose binary exponent is known, and the roundings met below.
\<close>

lemma float64_zero [simp]: "float64 0 = 0"
  by (simp add: float64_def)

lemma exponent_search_binade:
  "2 powi e \<le> x \<Longrightarrow> x < 2 powi (e + 1) \<Longrightarrow> \<bar>e\<bar> \<le> int fuel \<Longrightarrow> exponent_search fuel x = e"
proof (induction fuel arbitrary: x e)
  case 0
  then show ?case by simp
next
  case (Suc fuel)
  have up: "(2::real) powi (e + 1) = 2 * 2 powi e"
    by (rule power_int_add_1') simp
  show ?case
  proof (cases "2 \<le> x")
    case True
    have "0 < e"
    proof (rule ccontr)
      assume "\<not> 0 < e"
      then have "(2::real) powi (e + 1) \<le> 2 powi 1"
        by (intro power_int_increasing) simp_all
      with Suc.prems(2) True show False by simp
    qed
    have down: "(2::real) powi e = 2 * 2 powi (e - 1)"
      using power_int_add_1' [of "2::real" "e - 1"] by simp
    have "2 powi (e - 1) \<le> x / 2"
      using Suc.prems(1) unfolding down by simp
    moreover have "x / 2 < 2 powi (e - 1 + 1)"
      using Suc.prems(2) unfolding up by simp
    moreover have "\<bar>e - 1\<bar> \<le> int fuel"
      using Suc.prems(3) \<open>0 < e\<close> by simp
    ultimately have "exponent_search fuel (x / 2) = e - 1"
      by (rule Suc.IH)
    with True show ?thesis by simp
  next
    case False
    show ?thesis
    proof (cases "x < 1")
      case True
      have "e < 0"
      proof (rule ccontr)
        assume "\<not> e < 0"
        then have "(2::real) powi 0 \<le> 2 powi e"
          by (intro power_int_increasing) simp_all
        with Suc.prems(1) True show False by simp
      qed
      have up2: "(2::real) powi (e + 1 + 1) = 2 * 2 powi (e + 1)"
        by (rule power_int_add_1') simp
      have "2 powi (e + 1) \<le> 2 * x"
        using Suc.prems(1) unfolding up by simp
      moreover have "2 * x < 2 powi (e + 1 + 1)"
        using Suc.prems(2) unfolding up2 by simp
      moreover have "\<bar>e + 1\<bar> \<le> int fuel"
        using Suc.prems(3) \<open>e < 0\<close> by simp
      ultimately have "exponent_search fuel (2 * x) = e + 1"
        by (rule Suc.IH)
      with True False show ?thesis by simp
    next
      case x: False
      have "\<not> e < 0"
      proof
        assume "e < 0"
        then have "(2::real) powi (e + 1) \<le> 2 powi 0"
          by (intro power_int_increasing) simp_all
        with Suc.prems(2) x show False by simp
      qed
      moreover have "\<not> 0 < e"
      proof
        assume "0 < e"
        then have "(2::real) powi 1 \<le> 2 powi e"
          by (intro power_int_increasing) simp_all
        with Suc.prems(1) False show False by simp
      qed
      ultimately have "e = 0" by simp
      with False x show ?thesis by simp
    qed
  qed
qed

lemma float64_binade:
  assumes "2 powi e \<le> \<bar>x\<bar>" "\<bar>x\<bar> < 2 powi (e + 1)" "- 1022 \<le> e" "e \<le> 1023"
  shows "float64 x = of_int (round_half_even (x / 2 powi (e - 52))) * 2 powi (e - 52)"
proof -
  have "x \<noteq> 0"
    using assms(1) by (smt (verit) zero_less_power_int)
  moreover have "binary_exponent x = e"
    unfolding binary_exponent_def using assms by (intro exponent_search_binade) simp_all
  ultimately show ?thesis
    using assms(3) by (simp add: float64_def Let_def max_def)
qed

lemma small_float64:
  "float64 1 = 1" "float64 (- 1) = - 1" "float64 2 = 2" "float64 (- 2) = - 2"
proof -
  show "float64 1 = 1" "float64 (- 1) = - 1"
    by (subst float64_binade [where e = 0]; simp add: round_half_even_def Let_def)+
  show "float64 2 = 2" "float64 (- 2) = - 2"
    by (subst float64_binade [where e = 1];
        simp add: round_half_even_def Let_def power_int_minus)+
qed

lemma example_rounding:
  "float64 0.95 = 4278419646001971 / 2 ^ 52"
  "float64 0.1 = 3602879701896397 / 2 ^ 55"
  "float64 (4278419646001971 / 2 ^ 52 * - 0.5) = - 4278419646001971 / 2 ^ 53"
  "float64 (1 + - 4278419646001971 / 2 ^ 53) = 4728779608739021 / 2 ^ 53"
  "float64 (4728779608739021 / 2 ^ 53 - - 1) = 3433994715870003 / 2 ^ 51"
  "float64 (3602879701896397 / 2 ^ 55 * (3433994715870003 / 2 ^ 51)) = 5494391545392005 / 2 ^ 55"
  "float64 (- 1 + 5494391545392005 / 2 ^ 55) = - 7633601368392991 / 2 ^ 53"
  "float64 (- 7633601368392991 / 2 ^ 53 - - 1) = 1373597886348001 / 2 ^ 53"
  "float64 0.1525 = 5494391545392005 / 2 ^ 55"
  "float64 (- 0.8475) = - 7633601368392991 / 2 ^ 53"
proof -
  show "float64 0.95 = 4278419646001971 / 2 ^ 52"
    by (subst float64_binade [where e = "- 1"])
       (simp_all add: round_half_even_def Let_def power_int_minus)
  show "float64 0.1 = 3602879701896397 / 2 ^ 55"
    by (subst float64_binade [where e = "- 4"])
       (simp_all add: round_half_even_def Let_def power_int_minus)
  show "float64 (4278419646001971 / 2 ^ 52 * - 0.5) = - 4278419646001971 / 2 ^ 53"
    by (subst float64_binade [where e = "- 2"])
       (simp_all add: round_half_even_def Let_def power_int_minus)
  show "float64 (1 + - 4278419646001971 / 2 ^ 53) = 4728779608739021 / 2 ^ 53"
    by (subst float64_binade [where e = "- 1"])
       (simp_all add: round_half_even_def Let_def power_int_minus)
  show "float64 (4728779608739021 / 2 ^ 53 - - 1) = 3433994715870003 / 2 ^ 51"
    by (subst float64_binade [where e = 0])
       (simp_all add: round_half_even_def Let_def power_int_minus)
  show "float64 (3602879701896397 / 2 ^ 55 * (3433994715870003 / 2 ^ 51))
          = 5494391545392005 / 2 ^ 55"
    by (subst float64_binade [where e = "- 3"])
       (simp_all add: round_half_even_def Let_def power_int_minus)
  show "float64 (- 1 + 5494391545392005 / 2 ^ 55) = - 7633601368392991 / 2 ^ 53"
    by (subst float64_binade [where e = "- 1"])
       (simp_all add: round_half_even_def Let_def power_int_minus)
  show "float64 (- 7633601368392991 / 2 ^ 53 - - 1) = 1373597886348001 / 2 ^ 53"
    by (subst float64_binade [where e = "- 3"])
       (simp_all add: round_half_even_def Let_def power_int_minus)
  show "float64 0.1525 = 5494391545392005 / 2 ^ 55"
    by (subst float64_binade [where e = "- 3"])
       (simp_all add: round_half_even_def Let_def power_int_minus)
  show "float64 (- 0.8475) = - 7633601368392991 / 2 ^ 53"
    by (subst float64_binade [where e = "- 1"])
       (simp_all add: round_half_even_def Let_def power_int_minus)
qed

section \<open>Agent.update\<close>

lemma update_in_range:
  fixes self :: agent and s s' :: "int list" and a :: int and r :: real
  defines "Q \<equiv> q_table self"
  defines "q \<equiv> q_cell Q (s @ [a])"
  defines "target \<equiv> float64 (r + float64 (gamma self * Max (set (q_row Q s'))))"
  defines "q_new \<equiv> float64 (q + float64 (learning_rate self * float64 (target - q)))"
  assumes wf: "nd_wf Q"
    and shape: "nd_shape Q = dims @ [n_actions]"
    and ob: "as_index ob = Inr s"
    and s: "in_range dims s"
    and a: "in_range [n_actions] [a]"
    and ob': "as_index ob' = Inr s'"
    and s': "in_range dims s'"
  shows "update self ob a ob' r =
           Inr (Scalar (float64 (q_new - q)),
                self\<lparr>q_table := Q\<lparr>nd_data := (nd_data Q)[flat_index (nd_shape Q) (s @ [a]) := q_new]\<rparr>\<rparr>)"
proof -
  let ?sh = "dims @ [n_actions]"
  let ?c = "flat_index ?sh (s @ [a])"
  let ?data = "nd_data (q_table self)"
  have n_pos: "0 < n_actions"
    using a by (simp add: in_range_def)
  have off_s: "nd_offset ?sh s = Inr (flat_index ?sh s, [n_actions])"
    using s by (rule nd_offset_in_range)
  have off_s': "nd_offset ?sh s' = Inr (flat_index ?sh s', [n_actions])"
    using s' by (rule nd_offset_in_range)
  have off_a: "nd_offset [n_actions] [a] = Inr (flat_index [n_actions] [a], [])"
    using a by (rule nd_offset_last)
  have c_split: "?c = flat_index ?sh s + flat_index [n_actions] [a]"
    using in_range_length [OF s] by (simp add: flat_index_append)
  have len: "length ?data = prod_list ?sh"
    using wf shape by (simp add: nd_wf_def Q_def)
  have "in_range ?sh (s @ [a])"
    using s a by (simp add: in_range_def list_all2_appendI)
  from flat_index_bound [OF this, of "[]"] have c_lt: "?c < length ?data"
    using len by simp
  have "flat_index ?sh s' + n_actions \<le> length ?data"
    using flat_index_bound [OF s', of "[n_actions]"] len by simp
  then have "block ?data (flat_index ?sh s') n_actions \<noteq> []"
    using n_pos by (simp add: block_nonempty)
  then have mx: "np_max (block ?data (flat_index ?sh s') n_actions)
                   = Inr (Max (set (block ?data (flat_index ?sh s') n_actions)))"
    by (rule np_max_Max)
  have row: "q_row (q_table self) s' = block ?data (flat_index ?sh s') n_actions"
    using s' shape unfolding Q_def by (rule q_row_block)
  show ?thesis
    using c_lt shape mx row unfolding Q_def q_def target_def q_new_def
    by (simp add: update_def ob ob' off_s off_s' off_a view_map_single
          c_split [symmetric] Let_def q_cell_def del: nd_offset.simps flat_index.simps)
qed

lemma ex_float_agent_row:
  "q_cell (q_table ex_float_agent) ([0] @ [0]) = - 1"
  "Max (set (q_row (q_table ex_float_agent) [1])) = - 0.5"
  by (simp_all add: ex_float_agent_def q_cell_def q_row_def block_def)

text \<open>
  Claim C1, as the code computes it. For a state \<open>s\<close>, an action \<open>a\<close> and a next state
  \<open>s'\<close> whose indices are in range for the table, \<open>update\<close> returns. Every operation
  being rounded to \<^verbatim>\<open>float64\<close>: with \<open>target = r + gamma * max (Q[s'])\<close> and
  \<open>delta = learning_rate * (target - Q[s][a])\<close>, the entry \<open>Q[s][a]\<close> becomes
  \<open>Q[s][a] + delta\<close>, and the value returned is the new entry minus the old one, which
  is \<open>delta\<close> only up to rounding. With \<open>Q[s][a] = -1\<close>, \<open>r = 1\<close>, \<open>max (Q[s']) = -0.5\<close>
  and the \<^verbatim>\<open>float64\<close> values of \<open>gamma = 0.95\<close> and \<open>learning_rate = 0.1\<close>, the
  delta added is the \<^verbatim>\<open>float64\<close> \<open>0.1525\<close>, the entry becomes the \<^verbatim>\<open>float64\<close>
  \<open>-0.8475\<close>, and the value returned is \<open>2^(-55)\<close> below the \<^verbatim>\<open>float64\<close> \<open>0.1525\<close>:
  it prints as \<^verbatim>\<open>0.15249999999999997\<close>.
\<close>

theorem update_td_rule:
  fixes self :: agent and s s' :: "int list" and a :: int and r :: real
  defines "Q \<equiv> q_table self"
  defines "q \<equiv> q_cell Q (s @ [a])"
  defines "target \<equiv> float64 (r + float64 (gamma self * Max (set (q_row Q s'))))"
  defines "delta \<equiv> float64 (learning_rate self * float64 (target - q))"
  defines "q_new \<equiv> float64 (q + delta)"
  assumes wf: "nd_wf Q"
    and shape: "nd_shape Q = dims @ [n_actions]"
    and s: "in_range dims s"
    and a: "in_range [n_actions] [a]"
    and s': "in_range dims s'"
  shows "update self (Tuple s) a (Tuple s') r =
           Inr (Scalar (float64 (q_new - q)),
                self\<lparr>q_table := Q\<lparr>nd_data := (nd_data Q)[flat_index (nd_shape Q) (s @ [a]) := q_new]\<rparr>\<rparr>)
         \<and> (q = - 1 \<and> r = 1 \<and> gamma self = float64 0.95 \<and> Max (set (q_row Q s')) = - 0.5
              \<and> learning_rate self = float64 0.1
            \<longrightarrow> delta = float64 0.1525 \<and> q_new = float64 (- 0.8475)
                \<and> float64 (q_new - q) = float64 0.1525 - 1 / 2 ^ 55)"
proof
  have "as_index (Tuple s) = Inr s" "as_index (Tuple s') = Inr s'"
    by (simp_all add: as_index_def)
  from update_in_range [OF wf [unfolded Q_def] shape [unfolded Q_def] this(1) s a this(2) s', of r]
  show "update self (Tuple s) a (Tuple s') r =
           Inr (Scalar (float64 (q_new - q)),
                self\<lparr>q_table := Q\<lparr>nd_data := (nd_data Q)[flat_index (nd_shape Q) (s @ [a]) := q_new]\<rparr>\<rparr>)"
    unfolding Q_def q_def q_new_def delta_def target_def .
  show "q = - 1 \<and> r = 1 \<and> gamma self = float64 0.95 \<and> Max (set (q_row Q s')) = - 0.5
              \<and> learning_rate self = float64 0.1
            \<longrightarrow> delta = float64 0.1525 \<and> q_new = float64 (- 0.8475)
                \<and> float64 (q_new - q) = float64 0.1525 - 1 / 2 ^ 55"
  proof (intro impI, elim conjE)
    assume v: "q = - 1" "r = 1" "gamma self = float64 0.95" "Max (set (q_row Q s')) = - 0.5"
      "learning_rate self = float64 0.1"
    have t: "target = 4728779608739021 / 2 ^ 53"
      unfolding target_def v by (simp only: example_rounding(1,3,4))
    have d: "delta = 5494391545392005 / 2 ^ 55"
      unfolding delta_def t v by (simp only: example_rounding(2,5,6))
    have n: "q_new = - 7633601368392991 / 2 ^ 53"
      unfolding q_new_def d v by (simp only: example_rounding(7))
    have "float64 (q_new - q) = 1373597886348001 / 2 ^ 53"
      unfolding n v by (simp only: example_rounding(8))
    with d n show "delta = float64 0.1525 \<and> q_new = float64 (- 0.8475)
                \<and> float64 (q_new - q) = float64 0.1525 - 1 / 2 ^ 55"
      by (simp only: example_rounding(9,10)) simp
  qed
qed

text \<open>
  The rule on the example: \<open>s = 0\<close>, \<open>a = 0\<close>, \<open>s' = 1\<close>, \<open>r = 1\<close> on the two-state
  table.
\<close>

theorem update_td_rule_witness:
  "update ex_float_agent (Tuple [0]) 0 (Tuple [1]) 1 =
     Inr (Scalar (float64 0.1525 - 1 / 2 ^ 55),
          ex_float_agent\<lparr>q_table :=
            \<lparr>nd_shape = [2, 2], nd_data = [float64 (- 0.8475), - 1.5, - 0.5, - 0.75]\<rparr>\<rparr>)"
proof -
  have hyps: "nd_wf (q_table ex_float_agent)" "nd_shape (q_table ex_float_agent) = [2] @ [2]"
    "in_range [2] [0]" "in_range [2] [1]"
    by (simp_all add: ex_float_agent_def nd_wf_def in_range_def)
  have v: "gamma ex_float_agent = float64 0.95" "learning_rate ex_float_agent = float64 0.1"
    by (simp_all add: ex_float_agent_def)
  note rule = update_td_rule [OF hyps(1,2,3,3,4), of 1]
  have prem: "q_cell (q_table ex_float_agent) ([0] @ [0]) = - 1 \<and> (1::real) = 1
      \<and> gamma ex_float_agent = float64 0.95
      \<and> Max (set (q_row (q_table ex_float_agent) [1])) = - 0.5
      \<and> learning_rate ex_float_agent = float64 0.1"
    by (intro conjI ex_float_agent_row v refl)
  from rule [THEN conjunct2, rule_format, OF prem]
  have new: "float64 (q_cell (q_table ex_float_agent) ([0] @ [0])
               + float64 (learning_rate ex_float_agent
                   * float64 (float64 (1 + float64 (gamma ex_float_agent
                                  * Max (set (q_row (q_table ex_float_agent) [1]))))
                              - q_cell (q_table ex_float_agent) ([0] @ [0]))))
             = float64 (- 0.8475)"
    and returned: "float64 (float64 (q_cell (q_table ex_float_agent) ([0] @ [0])
               + float64 (learning_rate ex_float_agent
                   * float64 (float64 (1 + float64 (gamma ex_float_agent
                                  * Max (set (q_row (q_table ex_float_agent) [1]))))
                              - q_cell (q_table ex_float_agent) ([0] @ [0]))))
             - q_cell (q_table ex_float_agent) ([0] @ [0]))
             = float64 0.1525 - 1 / 2 ^ 55"
    by blast+
  from rule [THEN conjunct1, unfolded returned, unfolded new]
  show ?thesis
    by (simp add: ex_float_agent_def)
qed

text \<open>
  Claim C1 as stated fails on its own example: the value returned,
  \<open>1373597886348001 / 2^53\<close>, is neither the delta that was added to the entry (the
  \<^verbatim>\<open>float64\<close> \<open>0.1525\<close>) nor the number \<open>0.1525\<close>.
\<close>

theorem update_td_rule_counterexample:
  "update ex_float_agent (Tuple [0]) 0 (Tuple [1]) 1 =
     Inr (Scalar (1373597886348001 / 2 ^ 53),
          ex_float_agent\<lparr>q_table :=
            \<lparr>nd_shape = [2, 2],
             nd_data = [- 7633601368392991 / 2 ^ 53, - 1.5, - 0.5, - 0.75]\<rparr>\<rparr>)
   \<and> (- 7633601368392991 / 2 ^ 53 :: real) = float64 (- 0.8475)
   \<and> (1373597886348001 / 2 ^ 53 :: real) \<noteq> float64 0.1525
   \<and> (1373597886348001 / 2 ^ 53 :: real) \<noteq> 0.1525"
proof -
  have idx: "as_index (Tuple [0]) = Inr [0]" "as_index (Tuple [1]) = Inr [1]"
    by (simp_all add: as_index_def)
  have hyps: "nd_wf (q_table ex_float_agent)" "nd_shape (q_table ex_float_agent) = [2] @ [2]"
    "in_range [2] [0]" "in_range [2] [1]"
    by (simp_all add: ex_float_agent_def nd_wf_def in_range_def)
  have v: "gamma ex_float_agent = float64 0.95" "learning_rate ex_float_agent = float64 0.1"
    by (simp_all add: ex_float_agent_def)
  have new: "float64 (q_cell (q_table ex_float_agent) ([0] @ [0])
               + float64 (learning_rate ex_float_agent
                   * float64 (float64 (1 + float64 (gamma ex_float_agent
                                  * Max (set (q_row (q_table ex_float_agent) [1]))))
                              - q_cell (q_table ex_float_agent) ([0] @ [0]))))
             = - 7633601368392991 / 2 ^ 53"
    unfolding ex_float_agent_row v by (simp only: example_rounding(1-7))
  have returned: "float64 (- 7633601368392991 / 2 ^ 53
                            - q_cell (q_table ex_float_agent) ([0] @ [0]))
                    = 1373597886348001 / 2 ^ 53"
    unfolding ex_float_agent_row by (simp only: example_rounding(8))
  from update_in_range [OF hyps(1,2) idx(1) hyps(3,3) idx(2) hyps(4), of 1,
      unfolded new, unfolded returned]
  have "update ex_float_agent (Tuple [0]) 0 (Tuple [1]) 1 =
     Inr (Scalar (1373597886348001 / 2 ^ 53),
          ex_float_agent\<lparr>q_table :=
            \<lparr>nd_shape = [2, 2],
             nd_data = [- 7633601368392991 / 2 ^ 53, - 1.5, - 0.5, - 0.75]\<rparr>\<rparr>)"
    by (simp add: ex_float_agent_def)
  moreover have "(- 7633601368392991 / 2 ^ 53 :: real) = float64 (- 0.8475)"
    "(1373597886348001 / 2 ^ 53 :: real) \<noteq> float64 0.1525"
    "(1373597886348001 / 2 ^ 53 :: real) \<noteq> 0.1525"
    by (simp_all only: example_rounding(9,10)) simp_all
  ultimately show ?thesis by simp
qed

section \<open>Agent.act\<close>

lemma argmax_scan_first_max:
  assumes "best < length pre" "pre ! best = best_value"
    and "\<forall>j<length pre. pre ! j \<le> best_value"
    and "\<forall>j<best. pre ! j < best_value"
  shows "argmax_scan xs (length pre) best best_value < length (pre @ xs)
       \<and> (\<forall>j<length (pre @ xs). (pre @ xs) ! j \<le> (pre @ xs) ! argmax_scan xs (length pre) best best_value)
       \<and> (\<forall>j<argmax_scan xs (length pre) best best_value.
             (pre @ xs) ! j < (pre @ xs) ! argmax_scan xs (length pre) best best_value)"
  using assms
proof (induction xs arbitrary: pre best best_value)
  case Nil
  then show ?case by simp
next
  case (Cons x xs)
  let ?pre = "pre @ [x]"
  show ?case
  proof (cases "best_value < x")
    case True
    have "length pre < length ?pre" by simp
    moreover have "?pre ! length pre = x" by simp
    moreover have "\<forall>j<length ?pre. ?pre ! j \<le> x"
      using Cons.prems(3) True by (auto simp: nth_append less_Suc_eq)
    moreover have "\<forall>j<length pre. ?pre ! j < x"
      using Cons.prems(3) True by (auto simp: nth_append)
    ultimately show ?thesis
      using Cons.IH [of "length pre" ?pre x] True by simp
  next
    case False
    have "best < length ?pre" using Cons.prems(1) by simp
    moreover have "?pre ! best = best_value"
      using Cons.prems(1,2) by (simp add: nth_append)
    moreover have "\<forall>j<length ?pre. ?pre ! j \<le> best_value"
      using Cons.prems(3) False by (auto simp: nth_append less_Suc_eq)
    moreover have "\<forall>j<best. ?pre ! j < best_value"
      using Cons.prems(1,4) by (auto simp: nth_append)
    ultimately show ?thesis
      using Cons.IH [of best ?pre best_value] False by simp
  qed
qed

lemma np_argmax_first_max:
  assumes "xs \<noteq> []"
  shows "\<exists>k<length xs. np_argmax xs = Inr k \<and> xs ! k = Max (set xs) \<and> (\<forall>j<k. xs ! j < xs ! k)"
proof -
  from assms obtain x rest where xs: "xs = x # rest" by (cases xs) auto
  let ?k = "argmax_scan rest 1 0 x"
  have *: "?k < length xs \<and> (\<forall>j<length xs. xs ! j \<le> xs ! ?k) \<and> (\<forall>j<?k. xs ! j < xs ! ?k)"
    using argmax_scan_first_max [of 0 "[x]" x rest] by (simp add: xs)
  then have "xs ! ?k \<in> set xs" by simp
  moreover have "\<forall>y\<in>set xs. y \<le> xs ! ?k"
    using * by (auto simp: in_set_conv_nth)
  ultimately have "Max (set xs) = xs ! ?k"
    by (intro Max_eqI) auto
  with * show ?thesis
    by (intro exI [of _ ?k]) (simp add: np_argmax_def xs)
qed



text \<open>
  Claim C10. A call of \<open>act\<close> that returns leaves the agent, and so every entry of its
  Q-table, as it was; only the generators advance.
\<close>

theorem act_leaves_q_table:
  assumes "act api self ob i r g = Inr (a, self', r', g')"
  shows "self' = self \<and> q_table self' = q_table self"
  using assms
  by (auto simp: act_def bind_r_def Let_def split: prod.splits sum.splits if_splits)

text \<open>An exploiting call on the two-state table: the table afterwards is the table before.\<close>

theorem act_leaves_q_table_witness:
  "act one_step_api ex_agent (Tuple [1]) 0 zero_rng 7 = Inr (0, ex_agent, zero_rng, 7)
   \<and> q_table ex_agent = \<lparr>nd_shape = [2, 2], nd_data = [- 1, - 1.5, - 0.5, - 0.7]\<rparr>"
proof -
  have run: "act one_step_api ex_agent (Tuple [1]) 0 zero_rng 7 = Inr (0, ex_agent, zero_rng, 7)"
    by (simp add: act_def ex_agent_def np_random_uniform_def zero_rng_def py_getitem_def
          py_index_def as_index_def block_def np_argmax_def)
  from act_leaves_q_table [OF run] run show ?thesis
    by (simp add: ex_agent_def)
qed

section \<open>The shape of the Q-table\<close>

lemma py_index_Inr:
  "py_index n i = Inr k \<Longrightarrow> k = nat (if i < 0 then i + int n else i) \<and> - int n \<le> i \<and> i < int n"
  by (auto simp: py_index_def split: if_splits)

lemma nd_offset_Inr:
  "nd_offset sh idx = Inr (off, rest) \<Longrightarrow>
     \<exists>dims. sh = dims @ rest \<and> in_range dims idx \<and> off = flat_index sh idx"
proof (induction sh idx arbitrary: off rest rule: nd_offset.induct)
  case (1 sh)
  then show ?case by (cases sh) (simp_all add: in_range_def)
next
  case (2 i idx)
  then show ?case by simp
next
  case (3 n sh i idx)
  from "3.prems" obtain k where k: "py_index n i = Inr k"
    by (cases "py_index n i") simp_all
  with "3.prems" obtain off' where tl: "nd_offset sh idx = Inr (off', rest)"
    and off: "off = k * prod_list sh + off'"
    by (cases "nd_offset sh idx") auto
  from "3.IH" [OF tl] obtain dims where dims: "sh = dims @ rest" "in_range dims idx"
    "off' = flat_index sh idx" by blast
  have "n # sh = (n # dims) @ rest" using dims(1) by simp
  moreover have "in_range (n # dims) (i # idx)"
    using dims(2) py_index_Inr [OF k] by (simp add: in_range_def)
  moreover have "off = flat_index (n # sh) (i # idx)"
    using off dims(3) py_index_Inr [OF k] by simp
  ultimately show ?case by blast
qed

lemma update_Inr:
  assumes "update self ob a ob' rw = Inr (d, self')"
  shows "\<exists>s dims rest f.
           as_index ob = Inr s
           \<and> nd_shape (q_table self) = dims @ rest
           \<and> in_range dims (s @ [a])
           \<and> self' = self\<lparr>q_table := (q_table self)
                         \<lparr>nd_data := view_map f (flat_index (nd_shape (q_table self)) (s @ [a]))
                                       (prod_list rest) (nd_data (q_table self))\<rparr>\<rparr>"
proof -
  let ?Q = "q_table self"
  from assms [unfolded update_def] obtain s where s: "as_index ob = Inr s"
    and 1: "bind_r (nd_offset (nd_shape ?Q) s) (\<lambda>(off1, sh1).
     bind_r (nd_offset sh1 [a]) (\<lambda>(off2, sh2).
     bind_r (as_index ob') (\<lambda>next_idx.
     bind_r (nd_offset (nd_shape (q_table self)) next_idx) (\<lambda>(off3, sh3).
     bind_r (np_max (block (nd_data (q_table self)) off3 (prod_list sh3)))
       (\<lambda>next_q_value_estimate.
         let temporal_difference_target =
               float64 (rw + float64 (gamma self * next_q_value_estimate));
             cell = off1 + off2;
             data' = view_map
                       (\<lambda>q. float64 (q + float64 (learning_rate self
                                                   * float64 (temporal_difference_target - q))))
                       cell (prod_list sh2) (nd_data (q_table self));
             self' = self\<lparr>q_table := (q_table self)\<lparr>nd_data := data'\<rparr>\<rparr>
         in
         if sh2 = [] then
           let q_value = nd_data (q_table self) ! cell
           in Inr (Scalar (float64 (data' ! cell - q_value)), self')
         else
           Inr (Array \<lparr>nd_shape = sh2,
                       nd_data = map (\<lambda>q'. float64 (q' - q'))
                                   (block data' cell (prod_list sh2))\<rparr>, self')))))) = Inr (d, self')"
    by (rule bind_r_Inr)
  from 1 obtain off1 sh1 off2 sh2 f where o1: "nd_offset (nd_shape ?Q) s = Inr (off1, sh1)"
    and o2: "nd_offset sh1 [a] = Inr (off2, sh2)"
    and self': "self' = self\<lparr>q_table := ?Q\<lparr>nd_data :=
                   view_map f (off1 + off2) (prod_list sh2) (nd_data ?Q)\<rparr>\<rparr>"
    by (fastforce simp: Let_def elim!: bind_r_Inr split: if_splits prod.splits)
  from nd_offset_Inr [OF o1] obtain dims1 where shape: "nd_shape ?Q = dims1 @ sh1"
    and r1: "in_range dims1 s" and f1: "off1 = flat_index (nd_shape ?Q) s" by blast
  from nd_offset_Inr [OF o2] obtain dims2 where sh1: "sh1 = dims2 @ sh2"
    and r2: "in_range dims2 [a]" and f2: "off2 = flat_index sh1 [a]" by blast
  have len: "length s = length dims1" using r1 by (rule in_range_length)
  have cell: "flat_index (nd_shape ?Q) (s @ [a]) = off1 + off2"
    using flat_index_append [OF len, of sh1 "[a]"] f1 f2 by (simp only: shape)
  have "in_range (dims1 @ dims2) (s @ [a])"
    using r1 r2 by (simp add: in_range_def list_all2_appendI)
  moreover have "nd_shape ?Q = (dims1 @ dims2) @ sh2"
    using shape sh1 by simp
  ultimately show ?thesis
    using s self' cell by metis
qed

lemma update_keeps_shape:
  assumes "update self ob a ob' rw = Inr (d, self')"
  shows "nd_shape (q_table self') = nd_shape (q_table self)
       \<and> length (nd_data (q_table self')) = length (nd_data (q_table self))"
  using update_Inr [OF assms] by auto

text \<open>
  Whatever the length of the state index, a call that returns changes no entry outside
  the view \<^verbatim>\<open>Q[state][action]\<close>.
\<close>

lemma update_frame:
  assumes "update self ob a ob' rw = Inr (d, self')"
  shows "\<exists>s dims rest.
           as_index ob = Inr s
           \<and> nd_shape (q_table self) = dims @ rest
           \<and> in_range dims (s @ [a])
           \<and> (\<forall>j. j < flat_index (nd_shape (q_table self)) (s @ [a])
                    \<or> flat_index (nd_shape (q_table self)) (s @ [a]) + prod_list rest \<le> j
                  \<longrightarrow> nd_data (q_table self') ! j = nd_data (q_table self) ! j)"
proof -
  from update_Inr [OF assms] obtain s dims rest f where s: "as_index ob = Inr s"
    "nd_shape (q_table self) = dims @ rest" "in_range dims (s @ [a])"
    and self': "self' = self\<lparr>q_table := (q_table self)
                  \<lparr>nd_data := view_map f (flat_index (nd_shape (q_table self)) (s @ [a]))
                                (prod_list rest) (nd_data (q_table self))\<rparr>\<rparr>"
    by blast
  have "\<forall>j. j < flat_index (nd_shape (q_table self)) (s @ [a])
             \<or> flat_index (nd_shape (q_table self)) (s @ [a]) + prod_list rest \<le> j
           \<longrightarrow> nd_data (q_table self') ! j = nd_data (q_table self) ! j"
    unfolding self' by (simp add: view_map_outside del: flat_index.simps)
  with s show ?thesis by blast
qed

lemma updates_to_keeps_shape:
  "updates_to ag ag1 \<Longrightarrow>
     nd_shape (q_table ag1) = nd_shape (q_table ag)
     \<and> length (nd_data (q_table ag1)) = length (nd_data (q_table ag))"
  by (induction rule: updates_to.induct) (auto dest: update_keeps_shape)

lemma Agent_init_table:
  assumes "Agent_init n_act osl n lr gm r = Inr (ag, r')"
  shows "nd_shape (q_table ag) = osl @ [n_act]
       \<and> length (nd_data (q_table ag)) = prod_list (osl @ [n_act])
       \<and> length (epsilon ag) = nat n"
  using assms
  by (auto simp: Agent_init_def np_random_uniform_size_def np_linspace_def Let_def
        split: if_splits)

lemma MyEnvironment_init_CartPole:
  assumes "MyEnvironment_init api name = Inr e" "sublist ''CartPole'' name"
  shows "environment_name e = name \<and> n_bins e = Some 20
       \<and> bins e = Some [np_linspace (- 4.8) 4.8 20, np_linspace (- 4) 4 20,
                         np_linspace (- 0.418) 0.418 20, np_linspace (- 4) 4 20]"
  using assms by (auto simp: MyEnvironment_init_def bind_r_def split: sum.splits)

lemma reset_fields:
  assumes "reset api e0 = (ob0, e1)"
  shows "environment_name e1 = environment_name e0 \<and> n_bins e1 = n_bins e0 \<and> bins e1 = bins e0"
  using assms by (auto simp: reset_def split: prod.splits)

lemma CartPole_name: "sublist ''CartPole'' ''CartPole-v1''"
  by (simp add: sublist_Cons_right)

lemma cartpole_env_init: "MyEnvironment_init one_step_api ''CartPole-v1'' = Inr cartpole_env"
  by (simp add: MyEnvironment_init_def one_step_api_def cartpole_env_def CartPole_name)

lemma cartpole_env_reset: "reset one_step_api cartpole_env = (Box [0, 0, 0, 0], cartpole_env)"
  by (simp add: reset_def one_step_api_def cartpole_env_def)

lemma cartpole_env_lengths:
  "get_observation_space_length one_step_api cartpole_env = Inr [21, 21, 21, 21]"
  "get_action_space_length one_step_api cartpole_env = 2"
  by (simp_all add: get_observation_space_length_def get_action_space_length_def
        one_step_api_def cartpole_env_def CartPole_name numeral_eq_Suc)

lemma cartpole_agent_init:
  "Agent_init 2 [21, 21, 21, 21] 1 0.1 0.95 zero_rng = Inr (cartpole_agent, zero_rng)"
  by (simp add: Agent_init_def np_random_uniform_size_def np_linspace_def zero_rng_def
        cartpole_agent_def map_replicate_const)

lemma zero_rng_agent_init:
  "Agent_init 2 [21, 21, 21, 21] 1 lr gm zero_rng
     = Inr (cartpole_agent\<lparr>learning_rate := lr, gamma := gm\<rparr>, zero_rng)"
  by (simp add: Agent_init_def np_random_uniform_size_def np_linspace_def zero_rng_def
        cartpole_agent_def map_replicate_const)

lemma half_agent_update:
  "update (cartpole_agent\<lparr>learning_rate := 0.5, gamma := 0.5\<rparr>)
       (Tuple [0, 0, 0, - 1]) 1 (Tuple [0, 0, 0, 0]) 1 =
     Inr (Scalar 1, cartpole_agent\<lparr>learning_rate := 0.5, gamma := 0.5,
            q_table := \<lparr>nd_shape = [21, 21, 21, 21, 2],
                        nd_data = (replicate 388962 (- 2))[41 := - 1]\<rparr>\<rparr>)"
  using update_in_range [of "cartpole_agent\<lparr>learning_rate := 0.5, gamma := 0.5\<rparr>"
      "[21, 21, 21, 21]" 2 "Tuple [0, 0, 0, - 1]"
      "[0, 0, 0, - 1]" 1 "Tuple [0, 0, 0, 0]" "[0, 0, 0, 0]" 1]
  by (simp add: cartpole_agent_def nd_wf_def as_index_def in_range_def q_cell_def q_row_def
        block_def small_float64)

text \<open>
  A state index of three integers: numpy selects the two entries of \<open>Q[0, 0, 0][0]\<close>,
  overwrites both and returns an array of two zeros.
\<close>

lemma half_agent_update_view:
  "update (cartpole_agent\<lparr>learning_rate := 0.5, gamma := 0.5\<rparr>)
       (Tuple [0, 0, 0]) 0 (Tuple [0, 0, 0, 0]) 1 =
     Inr (Array \<lparr>nd_shape = [2], nd_data = [0, 0]\<rparr>,
          cartpole_agent\<lparr>learning_rate := 0.5, gamma := 0.5,
            q_table := \<lparr>nd_shape = [21, 21, 21, 21, 2],
                        nd_data = (replicate 388962 (- 2))[0 := - 1, 1 := - 1]\<rparr>\<rparr>)"
  by (simp add: update_def cartpole_agent_def as_index_def py_index_def block_def np_max_def
        view_map_def Let_def small_float64 upt_rec take_update_swap numeral_2_eq_2)

text \<open>
  Claim C8. For an environment whose name contains \<^verbatim>\<open>CartPole\<close> and whose observations
  have four dimensions, the agent built as \<open>main\<close> builds it has a Q-table of shape
  \<open>[21, 21, 21, 21, 2]\<close> with \<open>21^4 * 2\<close> entries. After any number of calls of \<open>update\<close>
  that return, whatever their arguments, the shape and the number of entries are the same.
  One more call that returns, for a state of four indices, has its state and action in
  range and changes no entry but \<open>Q[state][action]\<close>.
\<close>

theorem q_table_shape_and_frame:
  assumes env: "MyEnvironment_init api name = Inr e0" "sublist ''CartPole'' name"
    and rst: "reset api e0 = (ob0, e1)"
    and high: "gym_observation_high api (environment e1) = Inr high" "length high = 4"
    and osl: "get_observation_space_length api e1 = Inr osl"
    and ag: "Agent_init (get_action_space_length api e1) osl n lr gm r = Inr (ag, r')"
    and run: "updates_to ag ag1"
    and upd: "update ag1 ob a ob' rw = Inr (d, ag2)"
  shows "nd_shape (q_table ag) = [21, 21, 21, 21, 2]
       \<and> length (nd_data (q_table ag)) = 21 ^ 4 * 2
       \<and> nd_shape (q_table ag1) = [21, 21, 21, 21, 2]
       \<and> length (nd_data (q_table ag1)) = 21 ^ 4 * 2
       \<and> nd_shape (q_table ag2) = [21, 21, 21, 21, 2]
       \<and> length (nd_data (q_table ag2)) = 21 ^ 4 * 2
       \<and> (\<forall>s. as_index ob = Inr s \<and> length s = 4
              \<longrightarrow> in_range [21, 21, 21, 21, 2] (s @ [a])
                \<and> (\<forall>j. j \<noteq> flat_index [21, 21, 21, 21, 2] (s @ [a])
                       \<longrightarrow> nd_data (q_table ag2) ! j = nd_data (q_table ag1) ! j))"
proof -
  from MyEnvironment_init_CartPole [OF env] reset_fields [OF rst]
  have e1: "environment_name e1 = name" "n_bins e1 = Some 20" by simp_all
  have osl_eq: "osl = [21, 21, 21, 21]"
    using osl e1 env(2) high
    by (simp add: get_observation_space_length_def numeral_eq_Suc)
  have act_len: "get_action_space_length api e1 = 2"
    using e1 env(2) by (simp add: get_action_space_length_def)
  from Agent_init_table [OF ag]
  have t0: "nd_shape (q_table ag) = [21, 21, 21, 21, 2]"
    "length (nd_data (q_table ag)) = 21 ^ 4 * 2"
    by (simp_all add: osl_eq act_len)
  from updates_to_keeps_shape [OF run] t0
  have t1: "nd_shape (q_table ag1) = [21, 21, 21, 21, 2]"
    "length (nd_data (q_table ag1)) = 21 ^ 4 * 2" by simp_all
  from update_keeps_shape [OF upd] t1
  have t2: "nd_shape (q_table ag2) = [21, 21, 21, 21, 2]"
    "length (nd_data (q_table ag2)) = 21 ^ 4 * 2" by simp_all
  from update_Inr [OF upd] obtain s0 dims rest f where s0: "as_index ob = Inr s0"
    and split: "nd_shape (q_table ag1) = dims @ rest"
    and rng: "in_range dims (s0 @ [a])"
    and ag2: "ag2 = ag1\<lparr>q_table := (q_table ag1)
                \<lparr>nd_data := view_map f (flat_index (nd_shape (q_table ag1)) (s0 @ [a]))
                              (prod_list rest) (nd_data (q_table ag1))\<rparr>\<rparr>"
    by blast
  have frame: "in_range [21, 21, 21, 21, 2] (s @ [a])
                \<and> (\<forall>j. j \<noteq> flat_index [21, 21, 21, 21, 2] (s @ [a])
                       \<longrightarrow> nd_data (q_table ag2) ! j = nd_data (q_table ag1) ! j)"
    if s: "as_index ob = Inr s \<and> length s = 4" for s
  proof -
    from s s0 have eq: "s0 = s" by simp
    have "length dims = 5"
      using in_range_length [OF rng] s by (simp add: eq)
    moreover have whole: "dims @ rest = [21, 21, 21, 21, 2]"
      using split t1(1) by simp
    moreover from arg_cong [OF whole, of length] have "length dims + length rest = 5"
      by simp
    ultimately have rest: "rest = []" and dims: "dims = [21, 21, 21, 21, 2]"
      by simp_all
    have "nd_data (q_table ag2) =
            (nd_data (q_table ag1))[flat_index [21, 21, 21, 21, 2] (s @ [a]) :=
               f (nd_data (q_table ag1) ! flat_index [21, 21, 21, 21, 2] (s @ [a]))]"
      unfolding ag2 t1(1) rest eq by (simp del: flat_index.simps)
    then have "\<forall>j. j \<noteq> flat_index [21, 21, 21, 21, 2] (s @ [a])
                 \<longrightarrow> nd_data (q_table ag2) ! j = nd_data (q_table ag1) ! j"
      by (simp del: flat_index.simps)
    with rng show ?thesis
      by (simp only: dims eq)
  qed
  with t0 t1 t2 show ?thesis
    by (intro conjI allI impI) blast+
qed

text \<open>
  The agent built from the zero generator with learning rate and discount \<open>1/2\<close>, and
  one update of \<open>Q[0, 0, 0, -1][1]\<close>, the entry at position \<open>41\<close>: it becomes \<open>-1\<close>, and
  the entry at position \<open>40\<close> is what it was.
\<close>

theorem q_table_shape_and_frame_witness:
  "update (cartpole_agent\<lparr>learning_rate := 0.5, gamma := 0.5\<rparr>)
       (Tuple [0, 0, 0, - 1]) 1 (Tuple [0, 0, 0, 0]) 1 =
     Inr (Scalar 1, cartpole_agent\<lparr>learning_rate := 0.5, gamma := 0.5,
            q_table := \<lparr>nd_shape = [21, 21, 21, 21, 2],
                        nd_data = (replicate 388962 (- 2))[41 := - 1]\<rparr>\<rparr>)
   \<and> length ((replicate 388962 (- 2 :: real))[41 := - 1]) = 21 ^ 4 * 2
   \<and> in_range [21, 21, 21, 21, 2] ([0, 0, 0, - 1] @ [1])
   \<and> (replicate 388962 (- 2 :: real))[41 := - 1] ! 40 = nd_data (q_table cartpole_agent) ! 40"
proof -
  let ?ag = "cartpole_agent\<lparr>learning_rate := 0.5, gamma := 0.5\<rparr>"
  let ?ag2 = "cartpole_agent\<lparr>learning_rate := 0.5, gamma := 0.5,
            q_table := \<lparr>nd_shape = [21, 21, 21, 21, 2],
                        nd_data = (replicate 388962 (- 2))[41 := - 1]\<rparr>\<rparr>"
  have high: "gym_observation_high one_step_api (environment cartpole_env) = Inr [4.8, 4, 0.418, 4]"
    "length [4.8, 4, 0.418, 4 :: real] = 4"
    by (simp_all add: one_step_api_def)
  have ag: "Agent_init (get_action_space_length one_step_api cartpole_env) [21, 21, 21, 21]
              1 0.5 0.5 zero_rng = Inr (?ag, zero_rng)"
    by (simp only: cartpole_env_lengths zero_rng_agent_init)
  have idx: "(40::nat) \<noteq> flat_index [21, 21, 21, 21, 2] ([0, 0, 0, - 1] @ [1])"
    by simp
  have s: "as_index (Tuple [0, 0, 0, - 1]) = Inr [0, 0, 0, - 1] \<and> length [0, 0, 0, - 1 :: int] = 4"
    by (simp add: as_index_def)
  from q_table_shape_and_frame [OF cartpole_env_init CartPole_name cartpole_env_reset high
      cartpole_env_lengths(1) ag no_update half_agent_update]
  have len: "length (nd_data (q_table ?ag2)) = 21 ^ 4 * 2"
    and frame: "\<forall>s. as_index (Tuple [0, 0, 0, - 1]) = Inr s \<and> length s = 4
              \<longrightarrow> in_range [21, 21, 21, 21, 2] (s @ [1])
                \<and> (\<forall>j. j \<noteq> flat_index [21, 21, 21, 21, 2] (s @ [1])
                       \<longrightarrow> nd_data (q_table ?ag2) ! j = nd_data (q_table ?ag) ! j)"
    by blast+
  from frame [rule_format, OF s] idx
  have "in_range [21, 21, 21, 21, 2] ([0, 0, 0, - 1] @ [1])"
    "nd_data (q_table ?ag2) ! 40 = nd_data (q_table ?ag) ! 40"
    by blast+
  with len half_agent_update show ?thesis
    by simp
qed

section \<open>Discretization\<close>

lemma length_np_linspace [simp]: "length (np_linspace a b n) = n"
  by (simp add: np_linspace_def Let_def)

lemma nth_np_linspace:
  "i < n \<Longrightarrow> np_linspace a b n ! i = a + real i * ((b - a) / real (n - 1))"
  by (cases "n = 1") (auto simp: np_linspace_def Let_def)

lemma sorted_np_linspace:
  assumes "a \<le> b"
  shows "sorted (np_linspace a b n)"
proof -
  have "np_linspace a b n ! i \<le> np_linspace a b n ! j" if "i \<le> j" "j < n" for i j
  proof -
    have "0 \<le> (b - a) / real (n - 1)" using assms by simp
    then have "real i * ((b - a) / real (n - 1)) \<le> real j * ((b - a) / real (n - 1))"
      using that(1) by (intro mult_right_mono) simp_all
    then show ?thesis using that by (simp add: nth_np_linspace)
  qed
  then show ?thesis by (simp add: sorted_iff_nth_mono)
qed

lemma np_linspace_nonempty: "0 < n \<Longrightarrow> np_linspace a b n \<noteq> []"
  using length_np_linspace [of a b n] by (cases "np_linspace a b n") simp_all

lemma hd_np_linspace: "0 < n \<Longrightarrow> hd (np_linspace a b n) = a"
  using nth_np_linspace [of 0 n a b] np_linspace_nonempty [of n a b]
  by (simp add: hd_conv_nth)

lemma last_np_linspace: "2 \<le> n \<Longrightarrow> last (np_linspace a b n) = b"
  using nth_np_linspace [of "n - 1" n a b] np_linspace_nonempty [of n a b]
  by (simp add: last_conv_nth)

lemma np_digitize_sorted: "sorted bs \<Longrightarrow> np_digitize x bs = Inr (bin_index x bs + 1)"
  by (simp add: np_digitize_def bin_index_def)

lemma bin_index_range: "- 1 \<le> bin_index x bs \<and> bin_index x bs \<le> int (length bs) - 1"
proof -
  have "length (filter (\<lambda>b. b \<le> x) bs) \<le> length bs"
    by (rule length_filter_le)
  then show ?thesis
    unfolding bin_index_def by linarith
qed

lemma bin_index_below:
  assumes "sorted bs" "bs \<noteq> []" "x < hd bs"
  shows "bin_index x bs = - 1"
proof -
  have "\<forall>b\<in>set bs. \<not> b \<le> x"
  proof
    fix b assume "b \<in> set bs"
    with assms(1,2) have "hd bs \<le> b"
      by (cases bs) auto
    with assms(3) show "\<not> b \<le> x" by simp
  qed
  then have "filter (\<lambda>b. b \<le> x) bs = []" by (simp add: filter_empty_conv)
  then show ?thesis by (simp add: bin_index_def)
qed

lemma bin_index_above:
  assumes "sorted bs" "bs \<noteq> []" "last bs \<le> x"
  shows "bin_index x bs = int (length bs) - 1"
proof -
  have "\<forall>b\<in>set bs. b \<le> x"
  proof
    fix b assume "b \<in> set bs"
    then obtain i where i: "i < length bs" "bs ! i = b" by (auto simp: in_set_conv_nth)
    with assms(1) have "b \<le> bs ! (length bs - 1)"
      using sorted_nth_mono [of bs i "length bs - 1"] by simp
    with assms(2,3) show "b \<le> x" by (simp add: last_conv_nth)
  qed
  then have "filter (\<lambda>b. b \<le> x) bs = bs" by (simp add: filter_id_conv)
  then show ?thesis by (simp add: bin_index_def)
qed

lemma digitize_loop_Box:
  assumes "\<forall>i\<in>set is. 0 \<le> i \<and> i < int (length v) \<and> i < int (length bs) \<and> sorted (bs ! nat i)"
  shows "digitize_loop (Some bs) (Box v) is acc =
           Inr (acc @ map (\<lambda>i. bin_index (v ! nat i) (bs ! nat i)) is)"
  using assms
proof (induction "is" arbitrary: acc)
  case Nil
  then show ?case by simp
next
  case (Cons i rest)
  then have i: "0 \<le> i" "i < int (length v)" "i < int (length bs)" "sorted (bs ! nat i)"
    by simp_all
  then have "py_getitem v i = Inr (v ! nat i)" "py_getitem bs i = Inr (bs ! nat i)"
    by (simp_all add: py_getitem_def py_index_def)
  with i(4) Cons show ?case
    by (simp add: observation_getitem_def np_digitize_sorted)
qed

lemma set_observation_CartPole:
  assumes name: "sublist ''CartPole'' (environment_name e)"
    and bs: "bins e = Some bs" "\<forall>i<length high. i < length bs \<and> sorted (bs ! i)"
    and high: "gym_observation_high api (environment e) = Inr high"
    and v: "length high \<le> length v"
  shows "set_observation api e (Box v) =
           Inr (e\<lparr>observation :=
                  Some (Tuple (map (\<lambda>i. bin_index (v ! i) (bs ! i)) [0..<length high]))\<rparr>)"
proof -
  have "\<forall>i\<in>set (py_range (int (length high))).
          0 \<le> i \<and> i < int (length v) \<and> i < int (length bs) \<and> sorted (bs ! nat i)"
    using bs(2) v by (auto simp: py_range_def)
  from digitize_loop_Box [OF this, of "[]"]
  have "digitize_loop (Some bs) (Box v) (py_range (int (length high))) [] =
          Inr (map (\<lambda>i. bin_index (v ! i) (bs ! i)) [0..<length high])"
    by (simp add: py_range_def comp_def)
  then show ?thesis
    using name bs(1) high by (simp add: set_observation_def Let_def)
qed

lemma CartPole_bins:
  assumes "MyEnvironment_init api name = Inr e0" "sublist ''CartPole'' name"
  shows "\<exists>bs. bins e0 = Some bs \<and> n_bins e0 = Some 20 \<and> environment_name e0 = name
           \<and> length bs = 4
           \<and> (\<forall>i<4. length (bs ! i) = 20 \<and> sorted (bs ! i) \<and> bs ! i \<noteq> [])"
proof -
  let ?bs = "[np_linspace (- 4.8) 4.8 20, np_linspace (- 4) 4 20,
              np_linspace (- 0.418) 0.418 20, np_linspace (- 4) 4 20]"
  from MyEnvironment_init_CartPole [OF assms]
  have e0: "environment_name e0 = name" "n_bins e0 = Some 20" "bins e0 = Some ?bs"
    by simp_all
  have "length (?bs ! i) = 20 \<and> sorted (?bs ! i) \<and> ?bs ! i \<noteq> []" if "i < 4" for i
  proof -
    from that consider "i = 0" | "i = 1" | "i = 2" | "i = 3" by linarith
    then show ?thesis
      by cases (simp_all add: sorted_np_linspace np_linspace_nonempty)
  qed
  with e0 show ?thesis by simp
qed

text \<open>
  Claim C2, as the code has it. The constructor gives each dimension \<open>n_bins = 20\<close>
  increasing edges (not \<open>n_bins + 1\<close>), and \<open>set_observation\<close> subtracts one from
  \<^verbatim>\<open>np.digitize\<close>. For an adapter with a \<^verbatim>\<open>CartPole\<close> name and a raw vector that has a
  value for each of the (at most four) observation dimensions, \<open>set_observation\<close> returns
  and every index lies in \<open>[-1, n_bins - 1]\<close>: a value below the lowest edge gets \<open>-1\<close>, a
  value at or above the highest edge gets \<open>n_bins - 1\<close>.
\<close>

theorem set_observation_index_range:
  assumes init: "MyEnvironment_init api name = Inr e0" and cp: "sublist ''CartPole'' name"
    and e: "environment_name e = environment_name e0" "bins e = bins e0"
    and high: "gym_observation_high api (environment e) = Inr high" "length high \<le> 4"
    and v: "length high \<le> length v"
  shows "\<exists>idx bs nb. bins e0 = Some bs \<and> n_bins e0 = Some nb
           \<and> set_observation api e (Box v) = Inr (e\<lparr>observation := Some (Tuple idx)\<rparr>)
           \<and> length idx = length high
           \<and> (\<forall>i<length high.
                 length (bs ! i) = nb
                 \<and> - 1 \<le> idx ! i \<and> idx ! i \<le> int nb - 1
                 \<and> (v ! i < hd (bs ! i) \<longrightarrow> idx ! i = - 1)
                 \<and> (last (bs ! i) \<le> v ! i \<longrightarrow> idx ! i = int nb - 1))"
proof -
  from CartPole_bins [OF init cp] obtain bs where bs: "bins e0 = Some bs"
    "n_bins e0 = Some 20" "environment_name e0 = name" "length bs = 4"
    "\<forall>i<4. length (bs ! i) = 20 \<and> sorted (bs ! i) \<and> bs ! i \<noteq> []"
    by blast
  let ?idx = "map (\<lambda>i. bin_index (v ! i) (bs ! i)) [0..<length high]"
  have "\<forall>i<length high. i < length bs \<and> sorted (bs ! i)"
    using bs(4,5) high(2) by auto
  have "sublist ''CartPole'' (environment_name e)" "bins e = Some bs"
    using cp e bs(1,3) by simp_all
  from set_observation_CartPole [OF this \<open>\<forall>i<length high. i < length bs \<and> sorted (bs ! i)\<close> high(1) v]
  have run: "set_observation api e (Box v) = Inr (e\<lparr>observation := Some (Tuple ?idx)\<rparr>)"
    by simp
  have "length (bs ! i) = 20
        \<and> - 1 \<le> ?idx ! i \<and> ?idx ! i \<le> int 20 - 1
        \<and> (v ! i < hd (bs ! i) \<longrightarrow> ?idx ! i = - 1)
        \<and> (last (bs ! i) \<le> v ! i \<longrightarrow> ?idx ! i = int 20 - 1)" if "i < length high" for i
  proof -
    from that high(2) bs(5) have b: "length (bs ! i) = 20" "sorted (bs ! i)" "bs ! i \<noteq> []"
      by simp_all
    from that have nth: "?idx ! i = bin_index (v ! i) (bs ! i)" by simp
    show ?thesis
      using bin_index_range [of "v ! i" "bs ! i"]
        bin_index_below [OF b(2,3), of "v ! i"] bin_index_above [OF b(2,3), of "v ! i"]
      by (simp only: nth b(1)) simp
  qed
  with bs(1,2) run show ?thesis
    by (intro exI [of _ ?idx] exI [of _ bs] exI [of _ 20]) simp
qed

lemma cartpole_env_bins:
  "bins cartpole_env = Some [np_linspace (- 4.8) 4.8 20, np_linspace (- 4) 4 20,
                             np_linspace (- 0.418) 0.418 20, np_linspace (- 4) 4 20]"
  "environment_name cartpole_env = ''CartPole-v1''"
  "gym_observation_high one_step_api (environment cartpole_env) = Inr [4.8, 4, 0.418, 4]"
  by (simp_all add: cartpole_env_def one_step_api_def)

text \<open>
  Claim C2 as stated fails: \<open>-5\<close> is below the lowest edge of the first two dimensions and
  gets \<open>-1\<close>, not \<open>0\<close>; \<open>5\<close> is above the highest edge of the last two and gets \<open>19\<close>, not
  \<open>n_bins = 20\<close>.
\<close>

theorem set_observation_index_range_counterexample:
  "set_observation one_step_api cartpole_env (Box [- 5, - 5, 5, 5]) =
     Inr (cartpole_env\<lparr>observation := Some (Tuple [- 1, - 1, 19, 19])\<rparr>)"
proof -
  let ?bs = "[np_linspace (- 4.8) 4.8 20, np_linspace (- 4) 4 20,
              np_linspace (- 0.418) 0.418 20, np_linspace (- 4) 4 20]"
  let ?v = "[- 5, - 5, 5, 5 :: real]"
  have sorted: "\<forall>i<length [4.8, 4, 0.418, 4 :: real]. i < length ?bs \<and> sorted (?bs ! i)"
    by (simp add: sorted_np_linspace nth_Cons' )
  have "set_observation one_step_api cartpole_env (Box ?v) =
          Inr (cartpole_env\<lparr>observation :=
            Some (Tuple (map (\<lambda>i. bin_index (?v ! i) (?bs ! i))
                           [0..<length [4.8, 4, 0.418, 4 :: real]]))\<rparr>)"
    by (rule set_observation_CartPole [OF _ cartpole_env_bins(1) sorted cartpole_env_bins(3)])
       (simp_all add: cartpole_env_bins CartPole_name)
  moreover have "bin_index (- 5) (np_linspace (- 4.8) 4.8 20) = - 1"
    by (rule bin_index_below) (simp_all add: sorted_np_linspace np_linspace_nonempty hd_np_linspace)
  moreover have "bin_index (- 5) (np_linspace (- 4) 4 20) = - 1"
    by (rule bin_index_below) (simp_all add: sorted_np_linspace np_linspace_nonempty hd_np_linspace)
  moreover have "bin_index 5 (np_linspace (- 0.418) 0.418 20) = 19"
    using bin_index_above [of "np_linspace (- 0.418) 0.418 20" 5]
    by (simp add: sorted_np_linspace np_linspace_nonempty last_np_linspace)
  moreover have "bin_index 5 (np_linspace (- 4) 4 20) = 19"
    using bin_index_above [of "np_linspace (- 4) 4 20" 5]
    by (simp add: sorted_np_linspace np_linspace_nonempty last_np_linspace)
  ultimately show ?thesis
    by (simp add: upt_rec)
qed

text \<open>The theorem on the adapter of \<^verbatim>\<open>CartPole-v1\<close> and the raw vector \<open>[-4.9, 4, -0.5, 4.1]\<close>.\<close>

theorem set_observation_index_range_witness:
  "\<exists>idx. set_observation one_step_api cartpole_env (Box [- 4.9, 4, - 0.5, 4.1])
            = Inr (cartpole_env\<lparr>observation := Some (Tuple idx)\<rparr>)
         \<and> length idx = 4
         \<and> idx ! 0 = - 1 \<and> idx ! 1 = 19 \<and> idx ! 2 = - 1 \<and> idx ! 3 = 19"
proof -
  let ?bs = "[np_linspace (- 4.8) 4.8 20, np_linspace (- 4) 4 20,
              np_linspace (- 0.418) 0.418 20, np_linspace (- 4) 4 20]"
  let ?v = "[- 4.9, 4, - 0.5, 4.1 :: real]"
  from set_observation_index_range [OF cartpole_env_init CartPole_name refl refl
      cartpole_env_bins(3), of ?v]
  obtain idx bs nb where bs: "bins cartpole_env = Some bs" "n_bins cartpole_env = Some nb"
    and run: "set_observation one_step_api cartpole_env (Box ?v)
              = Inr (cartpole_env\<lparr>observation := Some (Tuple idx)\<rparr>)"
    and len: "length idx = 4"
    and idx: "\<forall>i<4. (?v ! i < hd (bs ! i) \<longrightarrow> idx ! i = - 1)
                   \<and> (last (bs ! i) \<le> ?v ! i \<longrightarrow> idx ! i = int nb - 1)"
    by auto
  from bs have bs_eq: "bs = ?bs" and nb: "nb = 20"
    by (simp_all add: cartpole_env_def)
  have "idx ! 0 = - 1" "idx ! 2 = - 1"
    using idx [rule_format, of 0] idx [rule_format, of 2]
    by (simp_all add: bs_eq hd_np_linspace)
  moreover have "idx ! 1 = 19" "idx ! 3 = 19"
    using idx [rule_format, of 1] idx [rule_format, of 3]
    by (simp_all add: bs_eq nb last_np_linspace)
  ultimately show ?thesis
    using run len by (intro exI [of _ idx]) simp
qed

section \<open>An environment without a discretization rule\<close>

text \<open>
  Claim C5, as the code has it. For a name that does not contain \<^verbatim>\<open>CartPole\<close> the
  constructor raises nothing of its own: it fails only when \<^verbatim>\<open>gym.make\<close> fails, and
  otherwise returns an adapter without bin edges. On such an adapter \<open>set_observation\<close>
  stores the observation as it is, the number of actions is the simulator's, and the
  observation space has the simulator's \<^verbatim>\<open>horizon + 1\<close> states.
\<close>

theorem MyEnvironment_init_other_name:
  assumes "\<not> sublist ''CartPole'' name"
  shows "(\<forall>g. gym_make api name = Inr g \<longrightarrow>
            MyEnvironment_init api name =
              Inr \<lparr>environment_name = name, environment = g, action = None,
                   observation = None, n_bins = None, bins = None\<rparr>)
       \<and> (\<forall>err. gym_make api name = Inl err \<longrightarrow> MyEnvironment_init api name = Inl err)
       \<and> (\<forall>e ob. environment_name e = name \<longrightarrow>
            set_observation api e ob = Inr (e\<lparr>observation := Some ob\<rparr>)
            \<and> get_action_space_length api e = gym_action_n api (environment e)
            \<and> (\<forall>h. gym_horizon api (environment e) = Inr h \<longrightarrow>
                  get_observation_space_length api e = Inr [h + 1]))"
  using assms
  by (simp add: MyEnvironment_init_def set_observation_def get_action_space_length_def
        get_observation_space_length_def)

text \<open>Claim C5 as stated fails: the adapter for \<^verbatim>\<open>FrozenLake-v1\<close> is constructed.\<close>

theorem MyEnvironment_init_other_name_counterexample:
  "MyEnvironment_init one_step_api ''FrozenLake-v1'' =
     Inr \<lparr>environment_name = ''FrozenLake-v1'', environment = 0, action = None,
          observation = None, n_bins = None, bins = None\<rparr>"
  by (simp add: MyEnvironment_init_def one_step_api_def sublist_Cons_right)

text \<open>The theorem on the name \<^verbatim>\<open>Taxi-v3\<close> and the observation \<open>3\<close>.\<close>

theorem MyEnvironment_init_other_name_witness:
  "MyEnvironment_init one_step_api ''Taxi-v3'' =
     Inr \<lparr>environment_name = ''Taxi-v3'', environment = 0, action = None,
          observation = None, n_bins = None, bins = None\<rparr>
   \<and> set_observation one_step_api
        \<lparr>environment_name = ''Taxi-v3'', environment = 0, action = None,
         observation = None, n_bins = None, bins = None\<rparr> (Discrete 3)
      = Inr \<lparr>environment_name = ''Taxi-v3'', environment = 0, action = None,
             observation = Some (Discrete 3), n_bins = None, bins = None\<rparr>"
proof -
  have name: "\<not> sublist ''CartPole'' ''Taxi-v3''"
    by (simp add: sublist_Cons_right)
  have make: "gym_make one_step_api ''Taxi-v3'' = Inr 0"
    by (simp add: one_step_api_def)
  from MyEnvironment_init_other_name [OF name, of one_step_api] make show ?thesis
    by simp
qed

section \<open>The epsilon schedule\<close>

lemma Agent_init_epsilon:
  assumes "Agent_init n_act osl n lr gm r = Inr (ag, r')"
  shows "0 \<le> n \<and> epsilon ag = map (\<lambda>x. exp (- 5 * x)) (np_linspace 0 1 (nat n))"
  using assms
  by (auto simp: Agent_init_def np_random_uniform_size_def Let_def split: if_splits)

lemma epsilon_nth:
  assumes "Agent_init n_act osl n lr gm r = Inr (ag, r')" "i < nat n"
  shows "epsilon ag ! i = exp (- 5 * (real i / real (nat n - 1)))"
  using Agent_init_epsilon [OF assms(1)] assms(2)
  by (simp add: nth_np_linspace)

text \<open>
  Claim C6, as the code has it. The schedule built by the constructor has one value per
  episode and never increases. Its first value is \<open>1\<close> when there is at least one episode;
  its last value is \<open>exp (-5)\<close>, so within \<open>exp (-5)\<close> of \<open>0\<close>, when there are at least two.
\<close>

theorem epsilon_schedule:
  assumes init: "Agent_init n_act osl n lr gm r = Inr (ag, r')"
  shows "length (epsilon ag) = nat n
       \<and> (\<forall>i j. i < j \<and> j < nat n \<longrightarrow> epsilon ag ! j \<le> epsilon ag ! i)
       \<and> (1 \<le> n \<longrightarrow> epsilon ag ! 0 = 1 \<and> \<bar>epsilon ag ! 0 - 1\<bar> \<le> exp (- 5))
       \<and> (2 \<le> n \<longrightarrow> epsilon ag ! (nat n - 1) = exp (- 5)
                      \<and> \<bar>epsilon ag ! (nat n - 1) - 0\<bar> \<le> exp (- 5))"
proof (intro conjI allI impI)
  show "length (epsilon ag) = nat n"
    using Agent_init_epsilon [OF init] by simp
next
  fix i j assume "i < j \<and> j < nat n"
  then have ij: "i < j" "j < nat n" "i < nat n" by simp_all
  have "real i / real (nat n - 1) \<le> real j / real (nat n - 1)"
    using ij(1) by (intro divide_right_mono) simp_all
  then show "epsilon ag ! j \<le> epsilon ag ! i"
    by (simp add: epsilon_nth [OF init ij(2)] epsilon_nth [OF init ij(3)])
next
  assume "1 \<le> n"
  then have "0 < nat n" by simp
  from epsilon_nth [OF init this] show "epsilon ag ! 0 = 1" by simp
  then show "\<bar>epsilon ag ! 0 - 1\<bar> \<le> exp (- 5)" by simp
next
  assume "2 \<le> n"
  then have "nat n - 1 < nat n" "real (nat n - 1) \<noteq> 0" by simp_all
  with epsilon_nth [OF init this(1)] show last: "epsilon ag ! (nat n - 1) = exp (- 5)"
    by simp
  show "\<bar>epsilon ag ! (nat n - 1) - 0\<bar> \<le> exp (- 5)"
    unfolding last by simp
qed

text \<open>
  Claim C6 as stated fails for one episode: the schedule is \<open>[1]\<close>, and its last value
  \<open>1\<close> is not within \<open>exp (-5)\<close> of \<open>0\<close>.
\<close>

theorem epsilon_schedule_counterexample:
  "Agent_init 2 [21, 21, 21, 21] 1 0.1 0.95 zero_rng = Inr (cartpole_agent, zero_rng)
   \<and> epsilon cartpole_agent ! (nat 1 - 1) = 1
   \<and> \<not> \<bar>epsilon cartpole_agent ! (nat 1 - 1) - 0\<bar> \<le> exp (- 5)"
proof -
  have "epsilon cartpole_agent = [1]"
    by (simp add: cartpole_agent_def)
  then show ?thesis
    using cartpole_agent_init by simp
qed

text \<open>The theorem on three episodes: the schedule is \<open>[1, exp (-5/2), exp (-5)]\<close>.\<close>

theorem epsilon_schedule_witness:
  "Agent_init 2 [2] 3 0.1 0.95 zero_rng =
     Inr (\<lparr>action_space_length = 2, observation_space_length = [2], n_episodes = 3,
           epsilon = [1, exp (- 5 / 2), exp (- 5)],
           q_table = \<lparr>nd_shape = [2, 2], nd_data = [- 2, - 2, - 2, - 2]\<rparr>,
           learning_rate = 0.1, gamma = 0.95\<rparr>, zero_rng)
   \<and> exp (- 5) \<le> exp (- 5 / 2 :: real)"
proof -
  have init: "Agent_init 2 [2] 3 0.1 0.95 zero_rng =
     Inr (\<lparr>action_space_length = 2, observation_space_length = [2], n_episodes = 3,
           epsilon = [1, exp (- 5 / 2), exp (- 5)],
           q_table = \<lparr>nd_shape = [2, 2], nd_data = [- 2, - 2, - 2, - 2]\<rparr>,
           learning_rate = 0.1, gamma = 0.95\<rparr>, zero_rng)"
    by (simp add: Agent_init_def np_random_uniform_size_def np_linspace_def zero_rng_def
          upt_rec)
  from epsilon_schedule [OF init] have "exp (- 5) \<le> exp (- 5 / 2 :: real)"
    by (auto dest!: spec [of _ 1] spec [of _ 2])
  with init show ?thesis by simp
qed

section \<open>The loops\<close>

lemma py_range_bounds: "i \<in> set (py_range n) \<Longrightarrow> 0 \<le> i \<and> i < n"
  by (auto simp: py_range_def)

lemma episode_step_reward:
  assumes "episode_step api i s = Inr s'"
  shows "\<exists>rw. step_reward api i s = Inr rw
           \<and> optimal_actions s' = optimal_actions s + (if 0 < rw then 1 else 0)
           \<and> episode_count s' = episode_count s + 1
           \<and> length (delta_update s') = length (delta_update s) + 1"
proof -
  let ?e = "the_environment (ep_heap s)"
  from assms [unfolded episode_step_def Let_def]
  obtain x1 where act: "act api (the_agent (ep_heap s)) (ep_observation s) i
                          (the_rng (ep_heap s)) (environment ?e) = Inr x1"
    and x1: "(case x1 of (a, ag1, r1, g1) \<Rightarrow>
      bind_r (step api (?e\<lparr>environment := g1, action := Some a\<rparr>))
        (\<lambda>((next_raw, reward, done'), e2).
      bind_r (set_observation api e2 next_raw) (\<lambda>e3.
      bind_r (read_observation e3) (\<lambda>next_observation.
      bind_r (update ag1 (ep_observation s) a next_observation reward) (\<lambda>(delta, ag2).
        Inr (s\<lparr>ep_heap := \<lparr>the_agent = ag2, the_environment = e3, the_rng = r1\<rparr>,
               ep_observation := next_observation,
               is_done := done',
               optimal_actions := optimal_actions s + (if reward > 0.0 then 1 else 0),
               episode_count := episode_count s + 1,
               delta_update := delta_update s @ [delta]\<rparr>)))))) = Inr s'"
    by (rule bind_r_Inr)
  obtain a ag1 r1 g1 where p1: "x1 = (a, ag1, r1, g1)" by (cases x1) auto
  with x1 obtain x2 where step: "step api (?e\<lparr>environment := g1, action := Some a\<rparr>) = Inr x2"
    and x2: "(case x2 of ((next_raw, reward, done'), e2) \<Rightarrow>
      bind_r (set_observation api e2 next_raw) (\<lambda>e3.
      bind_r (read_observation e3) (\<lambda>next_observation.
      bind_r (update ag1 (ep_observation s) a next_observation reward) (\<lambda>(delta, ag2).
        Inr (s\<lparr>ep_heap := \<lparr>the_agent = ag2, the_environment = e3, the_rng = r1\<rparr>,
               ep_observation := next_observation,
               is_done := done',
               optimal_actions := optimal_actions s + (if reward > 0.0 then 1 else 0),
               episode_count := episode_count s + 1,
               delta_update := delta_update s @ [delta]\<rparr>))))) = Inr s'"
    by (auto elim: bind_r_Inr)
  obtain next_raw reward done' e2 where p2: "x2 = ((next_raw, reward, done'), e2)"
    by (cases x2) auto
  have rw: "step_reward api i s = Inr reward"
    by (simp add: step_reward_def Let_def act p1 step p2)
  from x2 p2 obtain e3 next_observation x3 where x3: "(case x3 of (delta, ag2) \<Rightarrow>
        Inr (s\<lparr>ep_heap := \<lparr>the_agent = ag2, the_environment = e3, the_rng = r1\<rparr>,
               ep_observation := next_observation,
               is_done := done',
               optimal_actions := optimal_actions s + (if reward > 0.0 then 1 else 0),
               episode_count := episode_count s + 1,
               delta_update := delta_update s @ [delta]\<rparr>)) = Inr s'"
    by (auto elim!: bind_r_Inr)
  then have "optimal_actions s' = optimal_actions s + (if 0 < reward then 1 else 0)
           \<and> episode_count s' = episode_count s + 1
           \<and> length (delta_update s') = length (delta_update s) + 1"
    by (cases x3) auto
  with rw show ?thesis by blast
qed

lemma episode_loop_trace:
  fixes s s' :: "'g episode_state"
  assumes "episode_loop api i s = Some (Inr s')"
  shows "\<exists>rws. episode_trace api i s rws s' \<and> counted s rws s'"
proof -
  have "\<forall>s'. r = Inr s' \<longrightarrow> (\<exists>rws. episode_trace api i s rws s' \<and> counted s rws s')"
    if "episode_loop api i s = Some r" for r
  proof (rule episode_loop.raw_induct
      [where P = "\<lambda>api i s r. \<forall>s'. r = Inr s'
                    \<longrightarrow> (\<exists>rws. episode_trace api i s rws s' \<and> counted s rws s')", OF _ that])
    fix lp and api :: "'g gym_api" and i and s :: "'g episode_state" and r
    assume IH: "\<And>api i s r. lp api i s = Some r \<Longrightarrow>
                  \<forall>s'. r = Inr s' \<longrightarrow> (\<exists>rws. episode_trace api i s rws s' \<and> counted s rws s')"
      and unfold: "(if is_done s then Some (Inr s)
                    else case episode_step api i s of
                           Inl e \<Rightarrow> Some (Inl e)
                         | Inr s' \<Rightarrow> lp api i s') = Some r"
    show "\<forall>s'. r = Inr s' \<longrightarrow> (\<exists>rws. episode_trace api i s rws s' \<and> counted s rws s')"
    proof (cases "is_done s")
      case True
      with unfold have r: "r = Inr s" by simp
      from True have "episode_trace api i s [] s \<and> counted s [] s"
        by (simp add: episode_trace.finished counted_def)
      with r show ?thesis by blast
    next
      case False
      show ?thesis
      proof (cases "episode_step api i s")
        case (Inl e)
        with False unfold show ?thesis by auto
      next
        case (Inr s1)
        with False unfold have rest: "lp api i s1 = Some r" by simp
        from episode_step_reward [OF Inr] obtain rw where rw: "step_reward api i s = Inr rw"
          "optimal_actions s1 = optimal_actions s + (if 0 < rw then 1 else 0)"
          "episode_count s1 = episode_count s + 1"
          "length (delta_update s1) = length (delta_update s) + 1"
          by blast
        show ?thesis
        proof (intro allI impI)
          fix s' assume "r = Inr s'"
          with IH [OF rest] obtain rws where rws: "episode_trace api i s1 rws s'"
            "counted s1 rws s'" by blast
          have "episode_trace api i s (rw # rws) s'"
            using False Inr rw(1) rws(1) by (rule episode_trace.pass)
          moreover have "counted s (rw # rws) s'"
            using rws(2) rw(2,3,4) by (simp add: counted_def)
          ultimately show "\<exists>rws. episode_trace api i s rws s' \<and> counted s rws s'"
            by blast
        qed
      qed
    qed
  qed
  with assms show ?thesis by blast
qed

lemma episode_trace_Nil:
  assumes "episode_trace api i s [] s'"
  shows "is_done s"
  using assms by (cases rule: episode_trace.cases) simp_all

lemma episode_init_Inr:
  assumes "episode_init api h = Inr s0"
  shows "\<not> is_done s0 \<and> optimal_actions s0 = 0 \<and> episode_count s0 = 1 \<and> delta_update s0 = []"
proof -
  obtain raw e1 where rst: "reset api (the_environment h) = (raw, e1)"
    by (cases "reset api (the_environment h)") auto
  with assms show ?thesis
    by (auto simp: episode_init_def elim!: bind_r_Inr)
qed

lemma record_statistics_Inr:
  assumes "record_statistics i st s = Inr st'"
  shows "\<exists>d. sum_item (delta_update s) = Inr d
           \<and> heap st' = ep_heap s
           \<and> running_delta st' = running_delta st @ [d]
           \<and> running_accuracy st' = running_accuracy st
                @ [real_of_int (optimal_actions s) / real_of_int (episode_count s)]"
proof -
  from assms obtain d where d: "sum_item (delta_update s) = Inr d"
    by (auto simp: record_statistics_def elim: bind_r_Inr)
  with assms show ?thesis
    by (auto simp: record_statistics_def Let_def bind_r_def split: if_splits sum.splits)
qed

lemma run_episode_Inr:
  fixes st st' :: "'g loop_state"
  assumes "run_episode api i st = Some (Inr st')"
  shows "\<exists>s0 rws s d. episode_init api (heap st) = Inr s0
           \<and> episode_trace api i s0 rws s
           \<and> rws \<noteq> []
           \<and> length (delta_update s) = length rws
           \<and> heap st' = ep_heap s
           \<and> sum_item (delta_update s) = Inr d
           \<and> running_delta st' = running_delta st @ [d]
           \<and> running_accuracy st' = running_accuracy st
                @ [real (length (filter (\<lambda>rw. 0 < rw) rws)) / (real (length rws) + 1)]"
proof -
  from assms obtain s0 where init: "episode_init api (heap st) = Inr s0"
    by (cases "episode_init api (heap st)") (simp_all add: run_episode_def)
  with assms obtain s where loop: "episode_loop api i s0 = Some (Inr s)"
    and stats: "record_statistics i st s = Inr st'"
    by (auto simp: run_episode_def split: option.splits sum.splits)
  from episode_loop_trace [OF loop] obtain rws where rws: "episode_trace api i s0 rws s"
    "counted s0 rws s" by blast
  from episode_init_Inr [OF init] have s0: "\<not> is_done s0" "optimal_actions s0 = 0"
    "episode_count s0 = 1" "delta_update s0 = []" by simp_all
  have ne: "rws \<noteq> []"
  proof
    assume "rws = []"
    with rws(1) have "is_done s0" by (simp add: episode_trace_Nil)
    with s0(1) show False by simp
  qed
  from rws(2) s0 have c: "optimal_actions s = int (length (filter (\<lambda>rw. 0 < rw) rws))"
    "episode_count s = 1 + int (length rws)" "length (delta_update s) = length rws"
    by (simp_all add: counted_def)
  have "real_of_int (optimal_actions s) / real_of_int (episode_count s)
          = real (length (filter (\<lambda>rw. 0 < rw) rws)) / (real (length rws) + 1)"
    by (simp add: c(1,2) add.commute)
  with record_statistics_Inr [OF stats] init rws(1) ne c(3) show ?thesis
    by auto
qed

lemma run_episode_accuracy_below_one:
  fixes st st' :: "'g loop_state"
  assumes "run_episode api i st = Some (Inr st')"
  shows "\<exists>d acc. running_delta st' = running_delta st @ [d]
           \<and> running_accuracy st' = running_accuracy st @ [acc] \<and> 0 \<le> acc \<and> acc < 1"
proof -
  from run_episode_Inr [OF assms] obtain rws :: "real list" and d where s:
    "running_delta st' = running_delta st @ [d]"
    "running_accuracy st' = running_accuracy st
       @ [real (length (filter (\<lambda>rw. 0 < rw) rws)) / (real (length rws) + 1)]"
    by blast
  let ?acc = "real (length (filter (\<lambda>rw. 0 < rw) rws)) / (real (length rws) + 1)"
  have "length (filter (\<lambda>rw. 0 < rw) rws) \<le> length rws"
    by (rule length_filter_le)
  then have "real (length (filter (\<lambda>rw. 0 < rw) rws)) < real (length rws) + 1"
    by linarith
  then have "?acc < 1" by (simp add: divide_less_eq)
  moreover have "0 \<le> ?acc" by simp
  ultimately show ?thesis using s by blast
qed

lemma training_loop_Cons_Inr:
  fixes st st' :: "'g loop_state"
  assumes "training_loop api n (i # rest) st = Some (Inr st')"
  shows "\<exists>st1. run_episode api i st = Some (Inr st1)
           \<and> (if early_stop n i (running_accuracy st1) (running_delta st1) then st' = st1
               else training_loop api n rest st1 = Some (Inr st'))"
proof (cases "run_episode api i st")
  case None
  with assms show ?thesis by simp
next
  case (Some r)
  show ?thesis
  proof (cases r)
    case (Inl e)
    with Some assms show ?thesis by simp
  next
    case (Inr st1)
    with Some assms show ?thesis
      by (cases "early_stop n i (running_accuracy st1) (running_delta st1)") simp_all
  qed
qed

lemma upt_int_Cons: "m < k \<Longrightarrow> map int [m..<k] = int m # map int [Suc m..<k]"
  by (simp add: upt_conv_Cons)

section \<open>A run on the one-step simulator\<close>

lemma act_greedy:
  assumes wf: "nd_wf (q_table self)"
    and shape: "nd_shape (q_table self) = dims @ [n_actions]"
    and pos: "0 < n_actions"
    and ob: "as_index ob = Inr s"
    and s: "in_range dims s"
    and eps: "py_getitem (epsilon self) i = Inr eps"
    and exploit: "\<not> fst (np_random_uniform 1 0 r) < eps"
  shows "\<exists>k<n_actions. act api self ob i r g = Inr (int k, self, snd (np_random_uniform 1 0 r), g)"
proof -
  let ?sh = "dims @ [n_actions]"
  let ?row = "block (nd_data (q_table self)) (flat_index ?sh s) n_actions"
  have len: "length (nd_data (q_table self)) = prod_list ?sh"
    using wf shape by (simp add: nd_wf_def)
  have "flat_index ?sh s + n_actions \<le> length (nd_data (q_table self))"
    using flat_index_bound [OF s, of "[n_actions]"] len by simp
  then have row_len: "length ?row = n_actions"
    by (simp add: length_block)
  with pos have "?row \<noteq> []" by auto
  from np_argmax_first_max [OF this] obtain k where k: "k < length ?row" "np_argmax ?row = Inr k"
    by blast
  have off: "nd_offset ?sh s = Inr (flat_index ?sh s, [n_actions])"
    using s by (rule nd_offset_in_range)
  have "act api self ob i r g = Inr (int k, self, snd (np_random_uniform 1 0 r), g)"
    using k(2) exploit
    by (auto simp: act_def ob shape off eps split: prod.splits simp del: nd_offset.simps)
  with k(1) row_len show ?thesis by auto
qed

lemma origin_index_in_range: "in_range [21, 21, 21, 21] origin_index"
  using bin_index_range [of 0 "np_linspace (- 4.8) 4.8 20"]
    bin_index_range [of 0 "np_linspace (- 4) 4 20"]
    bin_index_range [of 0 "np_linspace (- 0.418) 0.418 20"]
  by (simp add: in_range_def origin_index_def)

lemma one_step_set_observation:
  assumes "environment_name e = ''CartPole-v1''" "bins e = bins cartpole_env"
  shows "set_observation one_step_api e (Box [0, 0, 0, 0])
           = Inr (e\<lparr>observation := Some (Tuple origin_index)\<rparr>)"
proof -
  let ?bs = "[np_linspace (- 4.8) 4.8 20, np_linspace (- 4) 4 20,
              np_linspace (- 0.418) 0.418 20, np_linspace (- 4) 4 20]"
  let ?v = "[0, 0, 0, 0 :: real]"
  let ?high = "[4.8, 4, 0.418, 4 :: real]"
  let ?idx = "map (\<lambda>i. bin_index (?v ! i) (?bs ! i)) [0..<length ?high]"
  have b: "bins e = Some ?bs" using assms(2) by (simp add: cartpole_env_def)
  have sorted: "\<forall>i<length ?high. i < length ?bs \<and> sorted (?bs ! i)"
    by (simp add: sorted_np_linspace nth_Cons')
  have "set_observation one_step_api e (Box ?v) = Inr (e\<lparr>observation := Some (Tuple ?idx)\<rparr>)"
    by (rule set_observation_CartPole [OF _ b sorted])
       (simp_all add: assms(1) CartPole_name one_step_api_def)
  moreover have "?idx = origin_index"
    by (simp add: origin_index_def upt_rec)
  ultimately show ?thesis by simp
qed

lemma one_step_step:
  "step one_step_api e = Inr ((Box [0, 0, 0, 0], 1, True), e\<lparr>environment := Suc (environment e)\<rparr>)"
  by (simp add: step_def one_step_api_def)

lemma zero_rng_draw: "np_random_uniform 1 0 zero_rng = (1, zero_rng)"
  by (simp add: np_random_uniform_def zero_rng_def)

lemma py_getitem_nat: "0 \<le> i \<Longrightarrow> nat i < length xs \<Longrightarrow> py_getitem xs i = Inr (xs ! nat i)"
  by (simp add: py_getitem_def py_index_def)

lemma one_step_episode_step:
  fixes s :: "nat episode_state"
  assumes inv: "one_step_heap (ep_heap s)"
    and i: "0 \<le> i" "nat i < length (epsilon (the_agent (ep_heap s)))"
    and ob: "ep_observation s = Tuple origin_index"
  shows "\<exists>d h'.
           episode_step one_step_api i s =
             Inr (s\<lparr>ep_heap := h', ep_observation := Tuple origin_index, is_done := True,
                    optimal_actions := optimal_actions s + 1,
                    episode_count := episode_count s + 1,
                    delta_update := delta_update s @ [Scalar d]\<rparr>)
         \<and> one_step_heap h'
         \<and> epsilon (the_agent h') = epsilon (the_agent (ep_heap s))
         \<and> learning_rate (the_agent h') = learning_rate (the_agent (ep_heap s))
         \<and> (learning_rate (the_agent (ep_heap s)) = 0 \<longrightarrow> d = 0)"
proof -
  let ?h = "ep_heap s"
  let ?ag = "the_agent ?h"
  let ?e = "the_environment ?h"
  let ?Q = "q_table ?ag"
  let ?idx = origin_index
  from inv have h: "the_rng ?h = zero_rng" "nd_wf ?Q" "nd_shape ?Q = [21, 21, 21, 21] @ [2]"
    "list_all (\<lambda>x. x \<le> 1) (epsilon ?ag)" "environment_name ?e = ''CartPole-v1''"
    "bins ?e = bins cartpole_env"
    "learning_rate ?ag = 0 \<longrightarrow> list_all (\<lambda>x. float64 x = x) (nd_data ?Q)"
    by (simp_all add: one_step_heap_def)
  have eps: "py_getitem (epsilon ?ag) i = Inr (epsilon ?ag ! nat i)"
    using i by (rule py_getitem_nat)
  have "epsilon ?ag ! nat i \<le> 1"
    using h(4) i(2) by (simp add: list_all_length)
  then have exploit: "\<not> fst (np_random_uniform 1 0 zero_rng) < epsilon ?ag ! nat i"
    by (simp add: zero_rng_draw)
  have idx: "as_index (Tuple ?idx) = Inr ?idx" by (simp add: as_index_def)
  from act_greedy [OF h(2,3) _ idx origin_index_in_range eps exploit, of one_step_api "environment ?e"]
  obtain k where k: "k < 2"
    and act: "act one_step_api ?ag (Tuple ?idx) i zero_rng (environment ?e)
              = Inr (int k, ?ag, zero_rng, environment ?e)"
    by (auto simp: zero_rng_draw)
  have a: "in_range [2] [int k]" using k by (simp add: in_range_def)
  let ?c = "flat_index (nd_shape ?Q) (?idx @ [int k])"
  let ?q = "q_cell ?Q (?idx @ [int k])"
  let ?q_new = "float64 (?q + float64 (learning_rate ?ag
                  * float64 (float64 (1 + float64 (gamma ?ag * Max (set (q_row ?Q ?idx)))) - ?q)))"
  let ?d = "float64 (?q_new - ?q)"
  let ?ag' = "?ag\<lparr>q_table := ?Q\<lparr>nd_data := (nd_data ?Q)[?c := ?q_new]\<rparr>\<rparr>"
  have upd: "update ?ag (Tuple ?idx) (int k) (Tuple ?idx) 1 = Inr (Scalar ?d, ?ag')"
    by (rule update_in_range [OF h(2,3) idx origin_index_in_range a idx origin_index_in_range])
  let ?h' = "\<lparr>the_agent = ?ag',
             the_environment = ?e\<lparr>action := Some (int k),
                                   environment := Suc (environment ?e),
                                   observation := Some (Tuple ?idx)\<rparr>,
             the_rng = zero_rng\<rparr>"
  have run: "episode_step one_step_api i s =
             Inr (s\<lparr>ep_heap := ?h', ep_observation := Tuple ?idx, is_done := True,
                    optimal_actions := optimal_actions s + 1,
                    episode_count := episode_count s + 1,
                    delta_update := delta_update s @ [Scalar ?d]\<rparr>)"
    by (simp add: episode_step_def Let_def ob h(1,5,6) act one_step_step
          one_step_set_observation read_observation_def upd)
  have "in_range ([21, 21, 21, 21] @ [2]) (?idx @ [int k])"
    using origin_index_in_range a unfolding in_range_def by (rule list_all2_appendI)
  from flat_index_bound [OF this, of "[]"] have c: "?c < length (nd_data ?Q)"
    using h(2,3) by (simp add: nd_wf_def)
  have still: "?q_new = ?q" "?d = 0" if "learning_rate ?ag = 0"
  proof -
    from that h(7) c have "float64 (nd_data ?Q ! ?c) = nd_data ?Q ! ?c"
      by (simp add: list_all_length)
    then show "?q_new = ?q" by (simp add: that q_cell_def)
    then show "?d = 0" by simp
  qed
  have inv': "one_step_heap ?h'"
    using h still(1) by (auto simp: one_step_heap_def nd_wf_def q_cell_def)
  have "epsilon (the_agent ?h') = epsilon ?ag" "learning_rate (the_agent ?h') = learning_rate ?ag"
    by simp_all
  with run inv' still(2) show ?thesis by blast
qed

lemma one_step_reset: "reset one_step_api e = (Box [0, 0, 0, 0], e)"
  by (simp add: reset_def one_step_api_def)

lemma one_step_run_episode:
  fixes st :: "nat loop_state"
  assumes inv: "one_step_heap (heap st)"
    and i: "0 \<le> i" "nat i < length (epsilon (the_agent (heap st)))"
    and len: "length (running_delta st) = nat i"
  shows "\<exists>d h'.
           run_episode one_step_api i st =
             Some (Inr (st\<lparr>heap := h',
                           running_delta := running_delta st @ [d],
                           running_accuracy := running_accuracy st @ [1 / 2]\<rparr>))
         \<and> one_step_heap h'
         \<and> epsilon (the_agent h') = epsilon (the_agent (heap st))
         \<and> learning_rate (the_agent h') = learning_rate (the_agent (heap st))
         \<and> (learning_rate (the_agent (heap st)) = 0 \<longrightarrow> d = 0)"
proof -
  let ?e = "the_environment (heap st)"
  let ?s0 = "\<lparr>ep_heap = (heap st)\<lparr>the_environment := ?e\<lparr>observation := Some (Tuple origin_index)\<rparr>\<rparr>,
              ep_observation = Tuple origin_index, is_done = False, optimal_actions = 0,
              episode_count = 1, delta_update = []\<rparr>"
  from inv have e: "environment_name ?e = ''CartPole-v1''" "bins ?e = bins cartpole_env"
    by (simp_all add: one_step_heap_def)
  have inv0: "one_step_heap (ep_heap ?s0)"
    using inv by (simp add: one_step_heap_def)
  have i0: "nat i < length (epsilon (the_agent (ep_heap ?s0)))"
    using i(2) by simp
  from one_step_episode_step [OF inv0 i(1) i0] obtain d h' where
    step: "episode_step one_step_api i ?s0 =
             Inr (?s0\<lparr>ep_heap := h', ep_observation := Tuple origin_index, is_done := True,
                    optimal_actions := optimal_actions ?s0 + 1,
                    episode_count := episode_count ?s0 + 1,
                    delta_update := delta_update ?s0 @ [Scalar d]\<rparr>)"
    and h': "one_step_heap h'" "epsilon (the_agent h') = epsilon (the_agent (heap st))"
      "learning_rate (the_agent h') = learning_rate (the_agent (heap st))"
      "learning_rate (the_agent (heap st)) = 0 \<longrightarrow> d = 0"
    by auto
  let ?s1 = "\<lparr>ep_heap = h', ep_observation = Tuple origin_index, is_done = True,
              optimal_actions = 1, episode_count = 2, delta_update = [Scalar d]\<rparr>"
  have step': "episode_step one_step_api i ?s0 = Inr ?s1"
    using step by simp
  have done1: "episode_loop one_step_api i ?s1 = Some (Inr ?s1)"
    by (subst episode_loop.simps) simp
  have loop: "episode_loop one_step_api i ?s0 = Some (Inr ?s1)"
    by (subst episode_loop.simps) (simp add: step' done1)
  have g1: "py_getitem (epsilon (the_agent h')) i = Inr (epsilon (the_agent h') ! nat i)"
    using i by (simp add: py_getitem_nat h'(2))
  have g2: "py_getitem (running_delta st @ [d]) i = Inr ((running_delta st @ [d]) ! nat i)"
    using i(1) len by (simp add: py_getitem_nat)
  have stats: "record_statistics i st ?s1 =
                 Inr (st\<lparr>heap := h', running_delta := running_delta st @ [d],
                        running_accuracy := running_accuracy st @ [1 / 2]\<rparr>)"
    by (simp add: record_statistics_def sum_item_def np_item_def Let_def g1 g2)
  have "run_episode one_step_api i st =
          Some (Inr (st\<lparr>heap := h', running_delta := running_delta st @ [d],
                        running_accuracy := running_accuracy st @ [1 / 2]\<rparr>))"
    by (simp add: run_episode_def episode_init_def Let_def one_step_reset
          one_step_set_observation e read_observation_def loop stats)
  with h' show ?thesis by blast
qed

lemma one_step_training_loop:
  fixes st :: "nat loop_state"
  assumes "one_step_heap (heap st)"
    and "length (epsilon (the_agent (heap st))) = nat n"
    and "length (running_delta st) = m"
  shows "\<exists>st'. training_loop one_step_api n (map int [m..<nat n]) st = Some (Inr st')
           \<and> running_accuracy st' = running_accuracy st @ replicate (nat n - m) (1 / 2)
           \<and> length (running_delta st') = m + (nat n - m)
           \<and> (learning_rate (the_agent (heap st)) = 0
                \<longrightarrow> running_delta st' = running_delta st @ replicate (nat n - m) 0)"
  using assms
proof (induction "nat n - m" arbitrary: m st)
  case 0
  then show ?case by simp
next
  case (Suc k)
  then have lt: "m < nat n" by simp
  have i: "0 \<le> int m" "nat (int m) < length (epsilon (the_agent (heap st)))"
    "length (running_delta st) = nat (int m)"
    using lt Suc.prems(2,3) by simp_all
  from one_step_run_episode [OF Suc.prems(1) i] obtain d h' where
    ep: "run_episode one_step_api (int m) st =
           Some (Inr (st\<lparr>heap := h', running_delta := running_delta st @ [d],
                         running_accuracy := running_accuracy st @ [1 / 2]\<rparr>))"
    and h': "one_step_heap h'" "epsilon (the_agent h') = epsilon (the_agent (heap st))"
      "learning_rate (the_agent h') = learning_rate (the_agent (heap st))"
      "learning_rate (the_agent (heap st)) = 0 \<longrightarrow> d = 0"
    by blast
  let ?st1 = "st\<lparr>heap := h', running_delta := running_delta st @ [d],
                 running_accuracy := running_accuracy st @ [1 / 2]\<rparr>"
  have no_stop: "\<not> early_stop n (int m) (running_accuracy ?st1) (running_delta ?st1)"
    using lt by (simp add: early_stop_def running_length_def)
  have unfold: "training_loop one_step_api n (map int [m..<nat n]) st =
          training_loop one_step_api n (map int [Suc m..<nat n]) ?st1"
    using no_stop by (simp add: upt_int_Cons [OF lt] ep)
  have k: "k = nat n - Suc m" using Suc.hyps(2) by simp
  have p: "one_step_heap (heap ?st1)" "length (epsilon (the_agent (heap ?st1))) = nat n"
    "length (running_delta ?st1) = Suc m"
    using h' Suc.prems(2,3) by simp_all
  from Suc.hyps(1) [OF k p] obtain st' where st':
    "training_loop one_step_api n (map int [Suc m..<nat n]) ?st1 = Some (Inr st')"
    "running_accuracy st' = running_accuracy ?st1 @ replicate (nat n - Suc m) (1 / 2)"
    "length (running_delta st') = Suc m + (nat n - Suc m)"
    "learning_rate (the_agent (heap ?st1)) = 0
       \<longrightarrow> running_delta st' = running_delta ?st1 @ replicate (nat n - Suc m) 0"
    by blast
  have split: "nat n - m = Suc (nat n - Suc m)" using lt by simp
  have "running_accuracy st' = running_accuracy st @ replicate (nat n - m) (1 / 2)"
    using st'(2) by (simp add: split)
  moreover have "length (running_delta st') = m + (nat n - m)"
    using st'(3) lt by simp
  moreover have "learning_rate (the_agent (heap st)) = 0
       \<longrightarrow> running_delta st' = running_delta st @ replicate (nat n - m) 0"
    using st'(4) h'(3,4) by (simp add: split)
  ultimately show ?case
    using st'(1) unfold by auto
qed

lemma one_step_schedule:
  "list_all (\<lambda>x. x \<le> 1) (map (\<lambda>x. exp (- 5 * x)) (np_linspace 0 1 k))"
  by (simp add: list_all_length nth_np_linspace)

lemma one_step_Agent_init:
  assumes "0 \<le> n"
  shows "\<exists>ag. Agent_init 2 [21, 21, 21, 21] n lr gm zero_rng = Inr (ag, zero_rng)
           \<and> nd_wf (q_table ag) \<and> nd_shape (q_table ag) = [21, 21, 21, 21, 2]
           \<and> list_all (\<lambda>x. x \<le> 1) (epsilon ag) \<and> length (epsilon ag) = nat n
           \<and> learning_rate ag = lr
           \<and> list_all (\<lambda>x. float64 x = x) (nd_data (q_table ag))"
  using assms one_step_schedule [of "nat n"]
  by (simp add: Agent_init_def np_random_uniform_size_def zero_rng_def nd_wf_def
        list_all_length small_float64)

lemma one_step_main:
  assumes "0 \<le> n"
  shows "\<exists>st. main one_step_api n lr gm zero_rng = Some (Inr st)
           \<and> running_accuracy st = replicate (nat n) (1 / 2)
           \<and> length (running_delta st) = nat n
           \<and> (lr = 0 \<longrightarrow> running_delta st = replicate (nat n) 0)"
proof -
  from one_step_Agent_init [OF assms, of lr gm] obtain ag where
    ag: "Agent_init 2 [21, 21, 21, 21] n lr gm zero_rng = Inr (ag, zero_rng)"
    "nd_wf (q_table ag)" "nd_shape (q_table ag) = [21, 21, 21, 21, 2]"
    "list_all (\<lambda>x. x \<le> 1) (epsilon ag)" "length (epsilon ag) = nat n" "learning_rate ag = lr"
    "list_all (\<lambda>x. float64 x = x) (nd_data (q_table ag))"
    by blast
  let ?st0 = "\<lparr>heap = \<lparr>the_agent = ag, the_environment = cartpole_env, the_rng = zero_rng\<rparr>,
              running_delta = [], running_accuracy = []\<rparr>"
  have start: "main one_step_api n lr gm zero_rng
                 = training_loop one_step_api n (map int [0..<nat n]) ?st0"
    by (simp add: main_def cartpole_env_init cartpole_env_reset cartpole_env_lengths ag(1)
          py_range_def)
  have inv: "one_step_heap (heap ?st0)"
    using ag(2,3,4,7) by (simp add: one_step_heap_def cartpole_env_def)
  from one_step_training_loop [of ?st0 n 0] inv ag(5,6) start show ?thesis
    by auto
qed



section \<open>The early stop\<close>

lemma main_Inr:
  fixes st :: "'g loop_state"
  assumes "main api n lr gm r = Some (Inr st)"
  shows "\<exists>st0 :: 'g loop_state. training_loop api n (py_range n) st0 = Some (Inr st)
           \<and> running_delta st0 = [] \<and> running_accuracy st0 = []"
proof (cases "MyEnvironment_init api ''CartPole-v1''")
  case (Inl e)
  with assms show ?thesis by (simp add: main_def)
next
  case (Inr e0)
  obtain ob0 e1 where rst: "reset api e0 = (ob0, e1)" by (cases "reset api e0") auto
  show ?thesis
  proof (cases "get_observation_space_length api e1")
    case (Inl e)
    with assms Inr rst show ?thesis by (simp add: main_def)
  next
    case osl: (Inr osl)
    show ?thesis
    proof (cases "Agent_init (get_action_space_length api e1) osl n lr gm r")
      case (Inl e)
      with assms Inr rst osl show ?thesis by (simp add: main_def)
    next
      case ag: (Inr p)
      obtain ag r' where p: "p = (ag, r')" by (cases p) auto
      let ?st0 = "\<lparr>heap = \<lparr>the_agent = ag, the_environment = e1, the_rng = r'\<rparr>,
                  running_delta = [], running_accuracy = []\<rparr>"
      from assms Inr rst osl ag p
      have "training_loop api n (py_range n) ?st0 = Some (Inr st)"
        by (simp add: main_def)
      then show ?thesis by (intro exI [of _ ?st0]) simp
    qed
  qed
qed

text \<open>
  Claim C9. For an episode index drawn from \<^verbatim>\<open>range(n_episodes)\<close> the first disjunct
  \<^verbatim>\<open>episode_index >= n_episodes + running_length\<close> is false, so the \<^verbatim>\<open>break\<close> condition
  is its second disjunct alone.
\<close>

theorem safety_bound_unreachable:
  assumes "episode_index \<in> set (py_range n)"
  shows "\<not> episode_index \<ge> n + running_length
       \<and> (early_stop n episode_index accs deltas \<longleftrightarrow>
            list_all (\<lambda>accuracy. accuracy = 1) accs
            \<and> list_all (\<lambda>delta. delta < 0.0001) deltas
            \<and> episode_index \<ge> running_length)"
  using py_range_bounds [OF assms]
  by (auto simp: early_stop_def running_length_def)

text \<open>The last index of ten episodes.\<close>

theorem safety_bound_unreachable_witness:
  "9 \<in> set (py_range 10) \<and> \<not> (9::int) \<ge> 10 + running_length
   \<and> \<not> early_stop 10 9 [1 / 2] [0]"
proof -
  have mem: "9 \<in> set (py_range 10)"
    by (simp add: py_range_def)
  from safety_bound_unreachable [OF mem, of "[1 / 2]" "[0]"] mem show ?thesis
    by simp
qed

section \<open>The recorded accuracy\<close>

text \<open>
  Claim C4 fails on the code. An episode that returns has made at least one pass through
  the loop body, and the accuracy recorded for it is the number of passes whose reward was
  positive divided by the number of passes plus one (\<^verbatim>\<open>episode_count\<close> starts at \<open>1\<close>):
  the recorded accuracy is below \<open>1\<close>.
\<close>

theorem recorded_accuracy:
  fixes st st' :: "'g loop_state"
  assumes "run_episode api i st = Some (Inr st')"
  shows "\<exists>s0 rws s. episode_init api (heap st) = Inr s0
           \<and> episode_trace api i s0 rws s
           \<and> rws \<noteq> []
           \<and> running_accuracy st' = running_accuracy st
                @ [real (length (filter (\<lambda>rw. 0 < rw) rws)) / (real (length rws) + 1)]
           \<and> last (running_accuracy st') < 1"
proof -
  from run_episode_Inr [OF assms] obtain s0 rws s where s:
    "episode_init api (heap st) = Inr s0" "episode_trace api i s0 rws s" "rws \<noteq> []"
    "running_accuracy st' = running_accuracy st
       @ [real (length (filter (\<lambda>rw. 0 < rw) rws)) / (real (length rws) + 1)]"
    by blast
  from run_episode_accuracy_below_one [OF assms] have "last (running_accuracy st') < 1"
    by auto
  with s show ?thesis by blast
qed

text \<open>
  One episode on the one-step simulator: one step, with reward \<open>1\<close>; the accuracy recorded
  is \<open>1/2\<close>.
\<close>

theorem recorded_accuracy_witness:
  "\<exists>st'. run_episode one_step_api 0 cartpole_start = Some (Inr st')
         \<and> running_accuracy st' = [1 / 2] \<and> last (running_accuracy st') < 1"
proof -
  have inv: "one_step_heap (heap cartpole_start)"
    by (simp add: one_step_heap_def cartpole_start_def cartpole_agent_def nd_wf_def
          cartpole_env_bins(2))
  have i: "(0::int) \<le> 0" "nat 0 < length (epsilon (the_agent (heap cartpole_start)))"
    "length (running_delta cartpole_start) = nat 0"
    by (simp_all add: cartpole_start_def cartpole_agent_def)
  from one_step_run_episode [OF inv i] obtain st' where
    run: "run_episode one_step_api 0 cartpole_start = Some (Inr st')"
    and acc: "running_accuracy st' = [1 / 2]"
    by (auto simp: cartpole_start_def)
  from recorded_accuracy [OF run] have "last (running_accuracy st') < 1" by blast
  with run acc show ?thesis by blast
qed

section \<open>The loop never stops early\<close>

lemma training_loop_every_episode:
  fixes st st' :: "'g loop_state"
  assumes "training_loop api n (map int [m..<nat n]) st = Some (Inr st')"
    and "length (running_accuracy st) = m" "length (running_delta st) = m"
    and "list_all (\<lambda>accuracy. accuracy < 1) (running_accuracy st)"
  shows "length (running_accuracy st') = m + (nat n - m)
       \<and> length (running_delta st') = m + (nat n - m)
       \<and> list_all (\<lambda>accuracy. accuracy < 1) (running_accuracy st')"
  using assms
proof (induction "nat n - m" arbitrary: m st)
  case 0
  then show ?case by simp
next
  case (Suc k)
  then have lt: "m < nat n" by simp
  from Suc.prems(1) have run:
    "training_loop api n (int m # map int [Suc m..<nat n]) st = Some (Inr st')"
    by (simp only: upt_int_Cons [OF lt])
  from training_loop_Cons_Inr [OF run] obtain st1 where
    st1: "run_episode api (int m) st = Some (Inr st1)"
    and branch: "if early_stop n (int m) (running_accuracy st1) (running_delta st1) then st' = st1
       else training_loop api n (map int [Suc m..<nat n]) st1 = Some (Inr st')"
    by blast
  from run_episode_accuracy_below_one [OF st1] obtain d acc where
    acc: "running_delta st1 = running_delta st @ [d]"
      "running_accuracy st1 = running_accuracy st @ [acc]" "acc < 1" by blast
  have "\<not> early_stop n (int m) (running_accuracy st1) (running_delta st1)"
    using lt acc by (simp add: early_stop_def running_length_def)
  with branch have rest: "training_loop api n (map int [Suc m..<nat n]) st1 = Some (Inr st')"
    by simp
  have k: "k = nat n - Suc m" using Suc.hyps(2) by simp
  have p: "length (running_accuracy st1) = Suc m" "length (running_delta st1) = Suc m"
    "list_all (\<lambda>accuracy. accuracy < 1) (running_accuracy st1)"
    using acc Suc.prems(2,3,4) by simp_all
  from Suc.hyps(1) [OF k rest p] lt show ?case by simp
qed

text \<open>
  Claim C3 fails on the code. Whatever the rewards and the deltas, the accuracy recorded
  for an episode is below \<open>1\<close> (\<^verbatim>\<open>episode_count\<close> starts at \<open>1\<close>), so the test
  \<^verbatim>\<open>accuracy == 1.0\<close> of the \<^verbatim>\<open>break\<close> fails after every episode: whenever \<open>main\<close>
  returns, it has run every configured episode and recorded one accuracy and one delta for
  each.
\<close>

theorem main_runs_every_episode:
  fixes st :: "'g loop_state"
  assumes "main api n lr gm r = Some (Inr st)"
  shows "length (running_accuracy st) = nat n
       \<and> length (running_delta st) = nat n
       \<and> list_all (\<lambda>accuracy. accuracy < 1) (running_accuracy st)"
proof -
  from main_Inr [OF assms] obtain st0 :: "'g loop_state" where
    st0: "training_loop api n (py_range n) st0 = Some (Inr st)"
    "running_delta st0 = []" "running_accuracy st0 = []" by blast
  from st0(1) have run: "training_loop api n (map int [0..<nat n]) st0 = Some (Inr st)"
    by (simp add: py_range_def)
  from training_loop_every_episode [OF run] st0(2,3) show ?thesis by simp
qed

text \<open>
  Seven episodes on the one-step simulator with learning rate \<open>0\<close>: every step has reward
  \<open>1\<close> and every delta is \<open>0\<close>, and the loop does not stop after \<open>running_length = 5\<close>
  episodes: it runs all seven and records the accuracy \<open>1/2\<close> each time.
\<close>

theorem main_runs_every_episode_witness:
  "\<exists>st. main one_step_api 7 0 0.95 zero_rng = Some (Inr st)
        \<and> statistics st
            = ([1 / 2, 1 / 2, 1 / 2, 1 / 2, 1 / 2, 1 / 2, 1 / 2], [0, 0, 0, 0, 0, 0, 0])
        \<and> length (running_accuracy st) = 7
        \<and> running_length < int (length (running_accuracy st))"
proof -
  from one_step_main [of 7 0 "0.95"] obtain st where
    st: "main one_step_api 7 0 0.95 zero_rng = Some (Inr st)"
    "running_accuracy st = replicate (nat 7) (1 / 2)"
    "running_delta st = replicate (nat 7) 0"
    by auto
  from main_runs_every_episode [OF st(1)] have len: "length (running_accuracy st) = 7"
    by simp
  have "statistics st
          = ([1 / 2, 1 / 2, 1 / 2, 1 / 2, 1 / 2, 1 / 2, 1 / 2], [0, 0, 0, 0, 0, 0, 0])"
    by (simp add: statistics_def st(2,3) numeral_eq_Suc)
  with st(1) len show ?thesis
    by (auto simp: running_length_def)
qed

end
